theory Spec2Isabelle
  imports Main "HOL-Library.Sublist" "HOL-Library.AList"
begin

section \<open>JavaScript string operations used by the responders\<close>

text \<open>
  Strings are character lists.  \<open>String.prototype.includes\<close>, \<open>endsWith\<close> and
  \<open>startsWith\<close> are the contiguous-sublist, suffix and prefix tests.
\<close>

definition includes_js :: "string \<Rightarrow> string \<Rightarrow> bool" where
  "includes_js s sub = sublist sub s"

definition endsWith :: "string \<Rightarrow> string \<Rightarrow> bool" where
  "endsWith s suf = suffix suf s"

definition startsWith :: "string \<Rightarrow> string \<Rightarrow> bool" where
  "startsWith s pre = prefix pre s"

text \<open>
  \<open>toLowerCase\<close> on the ASCII letters; every other character is left as it is (the file
  names and URLs handled here are ASCII).
\<close>

definition lower_char :: "char \<Rightarrow> char" where
  "lower_char c =
     (case map_of (zip ''ABCDEFGHIJKLMNOPQRSTUVWXYZ'' ''abcdefghijklmnopqrstuvwxyz'') c of
        Some d \<Rightarrow> d
      | None \<Rightarrow> c)"

definition toLowerCase :: "string \<Rightarrow> string" where
  "toLowerCase s = map lower_char s"

text \<open>
  \<open>s.split(sep)\<close> for a non-empty separator: the string is scanned from the left, every
  occurrence of the separator closes the current piece, and the result always has at
  least one piece.  \<open>cur\<close> is the piece being read, reversed.
\<close>

function split_from :: "string \<Rightarrow> string \<Rightarrow> string \<Rightarrow> string list" where
  "split_from sep cur [] = [rev cur]"
| "split_from sep cur (c # s) =
     (if sep \<noteq> [] \<and> prefix sep (c # s)
      then rev cur # split_from sep [] (drop (length sep) (c # s))
      else split_from sep (c # cur) s)"
  by pat_completeness auto
termination
  by (relation "measure (\<lambda>(sep, cur, s). length s)") (auto simp: neq_Nil_conv)

definition split_js :: "string \<Rightarrow> string \<Rightarrow> string list" where
  "split_js s sep = split_from sep [] s"

text \<open>\<open>a || b\<close> on values that are either an object (truthy) or \<open>undefined\<close>.\<close>

definition or_else :: "'a option \<Rightarrow> 'a option \<Rightarrow> 'a option" where
  "or_else a b = (case a of Some x \<Rightarrow> Some x | None \<Rightarrow> b)"


section \<open>Blobs, responses, the asset map and the Cache API\<close>

record blob =
  blob_type :: string
  blob_bytes :: string

datatype body = BlobBody blob | TextBody string

record response =
  status :: nat
  headers :: "(string \<times> string) list"
  body :: body

text \<open>
  A \<open>Map<string, Blob>\<close> keeps its entries in insertion order and has one entry per key:
  an association list whose keys are distinct (\<open>files_ok\<close>).  \<open>files.get\<close> is \<open>map_of\<close>,
  \<open>files.keys()\<close> is \<open>map fst\<close>, \<open>files.size\<close> is \<open>length\<close>.
\<close>

type_synonym files = "(string \<times> blob) list"

definition files_ok :: "files \<Rightarrow> bool" where
  "files_ok fs = distinct (map fst fs)"

text \<open>
  A cache of the Cache API: request URL and stored response, in the order of
  \<open>cache.keys()\<close>.  \<open>cache.put\<close> removes the entries of the same URL and appends the new
  one; \<open>cache.delete\<close> removes them; \<open>cache.match\<close> returns the stored response of a URL.
  URLs are compared as strings.
\<close>

type_synonym cache = "(string \<times> response) list"

definition cache_match :: "cache \<Rightarrow> string \<Rightarrow> response option" where
  "cache_match c url = map_of c url"

definition cache_keys :: "cache \<Rightarrow> string list" where
  "cache_keys c = map fst c"

definition cache_delete :: "cache \<Rightarrow> string \<Rightarrow> cache" where
  "cache_delete c url = filter (\<lambda>e. fst e \<noteq> url) c"

definition cache_put :: "cache \<Rightarrow> string \<Rightarrow> response \<Rightarrow> cache" where
  "cache_put c url r = cache_delete c url @ [(url, r)]"

text \<open>\<open>new Response(blob)\<close>: status 200, and a content type when the blob declares one.\<close>

definition Response_of_blob :: "blob \<Rightarrow> response" where
  "Response_of_blob b =
     \<lparr>status = 200,
      headers = (if blob_type b = [] then [] else [(''Content-Type'', blob_type b)]),
      body = BlobBody b\<rparr>"


subsection \<open>The cache storage of the origin\<close>

text \<open>
  \<open>caches\<close>: the named caches of the origin, in the order of \<open>caches.keys()\<close>.
  \<open>caches.open\<close> gives the cache of a name, an empty one when there is none yet;
  \<open>caches_store\<close> writes the cache back under its name.  The calls of the Cache API are
  taken to succeed (the source logs a failure and goes on).
\<close>

type_synonym cache_storage = "(string \<times> cache) list"

definition CACHE_NAME :: string where
  "CACHE_NAME = ''custom-model-cache-v1''"

definition caches_open :: "cache_storage \<Rightarrow> string \<Rightarrow> cache" where
  "caches_open st name = (case map_of st name of Some c \<Rightarrow> c | None \<Rightarrow> [])"

definition caches_store :: "cache_storage \<Rightarrow> string \<Rightarrow> cache \<Rightarrow> cache_storage" where
  "caches_store st name c = AList.update name c st"

definition caches_keys :: "cache_storage \<Rightarrow> string list" where
  "caches_keys st = map fst st"

text \<open>
  The keys of the shared cache are absolute URLs: the page's origin, then
  \<open>/custom-model-files/\<close>, then the file name (taken to need no escaping in a URL).
  \<open>cache.match\<close> of a path resolves it against the same origin.
\<close>

definition cache_url :: "string \<Rightarrow> string \<Rightarrow> string" where
  "cache_url origin name = origin @ ''/custom-model-files/'' @ name"


section \<open>The same-process responder: the \<open>window.fetch\<close> interceptor\<close>

text \<open>
  The lookup of the interceptor (exact name, basename, encoder or decoder keyword, single
  \<open>.onnx\<close> file), on the published map, the path after \<open>/custom-model/\<close> and its last
  segment.
\<close>

definition fetch_lookup :: "files \<Rightarrow> string \<Rightarrow> string \<Rightarrow> blob option" where
  "fetch_lookup fs filenameWithPossiblyPath filenameOnly =
     (let blob = or_else (map_of fs filenameWithPossiblyPath) (map_of fs filenameOnly)
      in if blob = None \<and> endsWith filenameOnly ''.onnx'' then
           (let filenames = map fst fs;
                isEncoder = includes_js (toLowerCase filenameOnly) ''encoder'';
                isDecoder = (includes_js (toLowerCase filenameOnly) ''decoder''
                             \<or> includes_js (toLowerCase filenameOnly) ''merged'');
                blob1 =
                  (if isEncoder then
                     (case find (\<lambda>k. includes_js (toLowerCase k) ''encoder'' \<and> endsWith k ''.onnx'')
                             filenames of
                        Some m \<Rightarrow> map_of fs m
                      | None \<Rightarrow> blob)
                   else if isDecoder then
                     (let match0 = find (\<lambda>k. includes_js (toLowerCase k) ''decoder''
                                              \<and> endsWith k ''.onnx'') filenames;
                          match1 = (if match0 = None
                                    then find (\<lambda>k. includes_js (toLowerCase k) ''merged''
                                                    \<and> endsWith k ''.onnx'') filenames
                                    else match0)
                      in case match1 of Some m \<Rightarrow> map_of fs m | None \<Rightarrow> blob)
                   else blob)
            in if blob1 = None then
                 (let onnxFiles = filter (\<lambda>k. endsWith k ''.onnx'') filenames
                  in if length onnxFiles = 1 then map_of fs (hd onnxFiles) else blob1)
               else blob1)
         else blob)"

text \<open>The path after the last \<open>/custom-model/\<close> of the URL without its query string.\<close>

definition fetch_relative :: "string \<Rightarrow> string" where
  "fetch_relative url =
     (let cleanUrl = hd (split_js url ''?'');
          parts = split_js cleanUrl ''/custom-model/''
      in last parts)"

definition fetch_basename :: "string \<Rightarrow> string" where
  "fetch_basename filenameWithPossiblyPath =
     (let p = last (split_js filenameWithPossiblyPath ''/'') in if p = [] then [] else p)"

text \<open>
  The interceptor either answers itself or hands the call to the original \<open>fetch\<close>.  The
  first argument (a string, a \<open>URL\<close> or a \<open>Request\<close>) is read as its URL; \<open>None\<close> is a call
  without arguments.  \<open>published\<close> is \<open>window.__CUSTOM_MODEL_FILES__\<close>, \<open>None\<close> while it is
  undefined.  The lines written to the console and to the debug log are left out.
\<close>

datatype fetch_result = Responded response | OriginalFetch "string option"

definition fetch_interceptor :: "files option \<Rightarrow> string option \<Rightarrow> fetch_result" where
  "fetch_interceptor published arg =
     (case arg of
        None \<Rightarrow> OriginalFetch arg
      | Some url \<Rightarrow>
          if includes_js url ''/custom-model/'' then
            (let filenameWithPossiblyPath = fetch_relative url;
                 filenameOnly = fetch_basename filenameWithPossiblyPath
             in case published of
                  None \<Rightarrow> OriginalFetch arg
                | Some fs \<Rightarrow>
                    if length fs > 0 then
                      (case fetch_lookup fs filenameWithPossiblyPath filenameOnly of
                         Some blob \<Rightarrow>
                           Responded
                             \<lparr>status = 200,
                              headers =
                                [(''Content-Type'',
                                  if blob_type blob \<noteq> [] then blob_type blob
                                  else if endsWith filenameOnly ''.json'' then ''application/json''
                                  else ''application/octet-stream''),
                                 (''Access-Control-Allow-Origin'', ''*'')],
                              body = BlobBody blob\<rparr>
                       | None \<Rightarrow>
                           Responded
                             \<lparr>status = 404,
                              headers = [(''Content-Type'', ''text/plain'')],
                              body = TextBody (''File not found: '' @ filenameOnly)\<rparr>)
                    else OriginalFetch arg)
          else OriginalFetch arg)"


section \<open>The persistent responder: the service worker\<close>

text \<open>
  The lookup of the worker in the shared cache (exact path, basename, encoder or decoder
  keyword on the URLs of the keys, single \<open>.onnx\<close> key).
\<close>

definition sw_lookup :: "string \<Rightarrow> cache \<Rightarrow> string \<Rightarrow> string \<Rightarrow> response option" where
  "sw_lookup origin c relativePath filenameOnly =
     (let response = cache_match c (cache_url origin relativePath);
          response1 = (if response = None then cache_match c (cache_url origin filenameOnly)
                       else response)
      in if response1 = None \<and> endsWith filenameOnly ''.onnx'' then
           (let keys = cache_keys c;
                isEncoder = includes_js (toLowerCase filenameOnly) ''encoder'';
                isDecoder = includes_js (toLowerCase filenameOnly) ''decoder'';
                response2 =
                  (if isEncoder then
                     (case find (\<lambda>k. includes_js (toLowerCase k) ''encoder'' \<and> endsWith k ''.onnx'')
                             keys of
                        Some m \<Rightarrow> cache_match c m
                      | None \<Rightarrow> response1)
                   else if isDecoder \<or> includes_js (toLowerCase filenameOnly) ''merged'' then
                     (case find (\<lambda>k. (includes_js (toLowerCase k) ''decoder''
                                       \<or> includes_js (toLowerCase k) ''merged'')
                                      \<and> endsWith k ''.onnx'') keys of
                        Some m \<Rightarrow> cache_match c m
                      | None \<Rightarrow> response1)
                   else response1)
            in if response2 = None then
                 (let onnxKeys = filter (\<lambda>k. endsWith k ''.onnx'') keys
                  in if length onnxKeys = 1 then cache_match c (hd onnxKeys) else response2)
               else response2)
         else response1)"

definition sw_relative :: "string \<Rightarrow> string" where
  "sw_relative pathname =
     (let cleanPathname = hd (split_js pathname ''?'');
          parts = split_js cleanPathname ''/custom-model/''
      in last parts)"

definition sw_basename :: "string \<Rightarrow> string" where
  "sw_basename relativePath =
     (let p = last (split_js relativePath ''/'') in if p = [] then relativePath else p)"

text \<open>
  \<open>serveCustomModel\<close> opens the cache \<open>CACHE_NAME\<close> of the origin's storage \<open>st\<close>.  What it
  writes to the console is left out, and the cache calls are taken not to throw.
\<close>

definition serveCustomModel :: "string \<Rightarrow> cache_storage \<Rightarrow> string \<Rightarrow> response" where
  "serveCustomModel origin st pathname =
     (let relativePath = sw_relative pathname;
          filenameOnly = sw_basename relativePath;
          cache = caches_open st CACHE_NAME
      in case sw_lookup origin cache relativePath filenameOnly of
           Some r \<Rightarrow>
             \<lparr>status = status r,
              headers = AList.update ''Access-Control-Allow-Origin'' ''*'' (headers r),
              body = body r\<rparr>
         | None \<Rightarrow>
             \<lparr>status = 404,
              headers = [(''Content-Type'', ''text/plain'')],
              body = TextBody (''File kustom tidak ditemukan di cache: '' @ filenameOnly)\<rparr>)"

text \<open>
  The \<open>fetch\<close> listener of the worker, on the path of the request URL: \<open>None\<close> when the
  worker leaves the request to the network.
\<close>

definition sw_fetch_listener :: "string \<Rightarrow> cache_storage \<Rightarrow> string \<Rightarrow> response option" where
  "sw_fetch_listener origin st pathname =
     (if includes_js pathname ''/custom-model/''
      then Some (serveCustomModel origin st pathname)
      else None)"


section \<open>The development server's middleware\<close>

datatype middleware_result = Next_middleware | Ended response

definition customModelNotFoundPlugin :: "string option \<Rightarrow> middleware_result" where
  "customModelNotFoundPlugin req_url =
     (let rawUrl = (case req_url of Some u \<Rightarrow> u | None \<Rightarrow> []);
          url = hd (split_js rawUrl ''?'')
      in if url = ''/custom-model'' \<or> startsWith url ''/custom-model/''
         then Ended
                \<lparr>status = 404,
                 headers = [(''Content-Type'', ''text/plain''), (''Cache-Control'', ''no-store'')],
                 body = TextBody (''404 Not Found: '' @ url)\<rparr>
         else Next_middleware)"


section \<open>Writing to the shared cache and purging the library's caches\<close>

text \<open>
  The loop \<open>for (const [name, blob] of files.entries()) await cache.put(...)\<close>, with the
  response built from each blob by \<open>mk\<close>.
\<close>

definition cache_put_all :: "(blob \<Rightarrow> response) \<Rightarrow> string \<Rightarrow> files \<Rightarrow> cache \<Rightarrow> cache" where
  "cache_put_all mk origin fs c =
     fold (\<lambda>(name, blob) c'. cache_put c' (cache_url origin name) (mk blob)) fs c"

text \<open>The response stored by \<open>loadOfflineModel\<close>, with an explicit content type.\<close>

definition Response_with_type :: "blob \<Rightarrow> response" where
  "Response_with_type b =
     \<lparr>status = 200,
      headers = [(''Content-Type'',
                  if blob_type b \<noteq> [] then blob_type b else ''application/octet-stream'')],
      body = BlobBody b\<rparr>"

text \<open>
  The purge of \<open>loadOfflineModel\<close>: in every cache whose name contains \<open>transformers\<close>,
  every key whose URL contains \<open>/custom-model/\<close> is deleted.
\<close>

definition purge_cache :: "cache \<Rightarrow> cache" where
  "purge_cache txCache =
     fold (\<lambda>key c. if includes_js key ''/custom-model/'' then cache_delete c key else c)
          (cache_keys txCache) txCache"

definition purge_transformers :: "cache_storage \<Rightarrow> cache_storage" where
  "purge_transformers st =
     (let cacheNames = caches_keys st;
          txCaches = filter (\<lambda>n. includes_js n ''transformers'') cacheNames
      in fold (\<lambda>cacheName st'. caches_store st' cacheName (purge_cache (caches_open st' cacheName)))
              txCaches st)"


text \<open>
  What the specification calls a key under the reserved prefix: the path of the URL starts
  with \<open>/custom-model/\<close>, the test that the middleware of the development server applies.
  \<open>url_pathname\<close> is the path of an absolute URL as \<open>new URL(u).pathname\<close> reads it in the
  worker, for URLs without escapes: what follows the host, up to the query or the fragment.
\<close>

fun after_scheme :: "string \<Rightarrow> string" where
  "after_scheme [] = []"
| "after_scheme (c # s) = (if prefix ''://'' (c # s) then drop 3 (c # s) else after_scheme s)"

definition url_pathname :: "string \<Rightarrow> string" where
  "url_pathname url =
     takeWhile (\<lambda>c. c \<noteq> CHR ''?'' \<and> c \<noteq> CHR ''#'')
       (dropWhile (\<lambda>c. c \<noteq> CHR ''/'') (after_scheme url))"

definition under_reserved_prefix :: "string \<Rightarrow> bool" where
  "under_reserved_prefix url = startsWith (url_pathname url) ''/custom-model/''"


section \<open>The manifest read from \<open>config.json\<close>\<close>

text \<open>
  What the code reads of the two JSON documents.  The decoding itself (\<open>blob.text()\<close>,
  \<open>JSON.parse\<close> and the field accesses) is the platform's: it is a parameter of the
  model, \<open>None\<close> where it throws.
\<close>

record config_json =
  architectures :: "string list option"
  model_type :: "string option"
  is_encoder_decoder :: bool

record tokenizer_json =
  tokenizer_class :: "string option"
  tokenizer_model_type :: "string option"

record manifest =
  arch :: string
  modelType :: string
  tokenizer :: string
  isEncoderDecoder :: bool
  requiredWeights :: "string list"
  hasGenerationConfig :: bool
  hasQuantizeConfig :: bool

text \<open>\<open>a || d\<close> on an optional string: the empty string is falsy.\<close>

definition str_or :: "string option \<Rightarrow> string \<Rightarrow> string" where
  "str_or a d = (case a of Some x \<Rightarrow> if x = [] then d else x | None \<Rightarrow> d)"

definition build_manifest ::
    "(blob \<Rightarrow> tokenizer_json option) \<Rightarrow> files \<Rightarrow> config_json \<Rightarrow> manifest" where
  "build_manifest parse_tokenizer fs config =
     (let tokenizerConfigBlob =
            or_else (map_of fs ''tokenizer_config.json'') (map_of fs ''tokenizer.json'');
          tokenizerInfo =
            (case tokenizerConfigBlob of
               None \<Rightarrow> ''Standard''
             | Some tb \<Rightarrow>
                 (case parse_tokenizer tb of
                    None \<Rightarrow> ''Standard''
                  | Some tData \<Rightarrow>
                      str_or (tokenizer_class tData)
                        (str_or (tokenizer_model_type tData) ''Custom'')));
          arch0 = str_or (case architectures config of Some (a # _) \<Rightarrow> Some a | _ \<Rightarrow> None)
                    ''Unknown'';
          modelType0 = str_or (model_type config) ''Unknown'';
          isEncDec = (includes_js arch0 ''ConditionalGeneration'' \<or> includes_js arch0 ''MTModel''
                      \<or> includes_js arch0 ''MarianMT'' \<or> is_encoder_decoder config);
          weights = (if isEncDec then [''encoder_model.onnx'', ''decoder_model_merged.onnx'']
                     else [''model.onnx''])
      in \<lparr>arch = arch0,
          modelType = modelType0,
          tokenizer = tokenizerInfo,
          isEncoderDecoder = isEncDec,
          requiredWeights = weights,
          hasGenerationConfig = (map_of fs ''generation_config.json'' \<noteq> None),
          hasQuantizeConfig = (map_of fs ''quantize_config.json'' \<noteq> None)\<rparr>)"


section \<open>The state of the application and its effects\<close>

datatype model_source = Remote | Custom

record tx_env =
  localModelPath :: string
  allowRemoteModels :: bool
  allowLocalModels :: bool
  remoteHost :: string
  remotePathTemplate :: string

text \<open>
  The React state, the refs and the globals that the three effects below read and write.
  \<open>translatorRef\<close> says whether a pipeline is held; \<open>published\<close> is
  \<open>window.__CUSTOM_MODEL_FILES__\<close>; \<open>indexedDB\<close> is the record \<open>current_custom_model\<close>;
  \<open>pipeline_calls\<close> lists the calls of \<open>pipeline('translation', modelId, {quantized})\<close>
  made so far.
\<close>

record app =
  modelSource :: model_source
  remoteModelId :: string
  customModelFiles :: files
  modelConfig :: "manifest option"
  translatorRef :: bool
  loadedModelId :: "string option"
  isModelLoading :: bool
  isOfflineMode :: bool
  progressItems :: "string list"
  modelProgress :: nat
  modelStatus :: "string option"
  errorMessage :: "string option"
  env :: tx_env
  published :: "files option"
  caches :: cache_storage
  indexedDB :: "files option"
  pipeline_calls :: "(string \<times> bool) list"

text \<open>The effect on \<open>[customModelFiles, modelSource]\<close> that parses the configuration.\<close>

definition parseConfigs ::
    "(blob \<Rightarrow> config_json option) \<Rightarrow> (blob \<Rightarrow> tokenizer_json option) \<Rightarrow> app \<Rightarrow> app" where
  "parseConfigs parse_config parse_tokenizer s =
     (if modelSource s \<noteq> Custom \<or> length (customModelFiles s) = 0
      then s\<lparr>modelConfig := None\<rparr>
      else
        (case map_of (customModelFiles s) ''config.json'' of
           None \<Rightarrow> s
         | Some configBlob \<Rightarrow>
             (case parse_config configBlob of
                None \<Rightarrow> s
              | Some config \<Rightarrow>
                  s\<lparr>modelConfig :=
                      Some (build_manifest parse_tokenizer (customModelFiles s) config)\<rparr>)))"

text \<open>
  The effect on \<open>[customModelFiles]\<close> that publishes the map and saves it to the shared
  cache and to IndexedDB.
\<close>

definition saveFiles :: "string \<Rightarrow> app \<Rightarrow> app" where
  "saveFiles origin s =
     (let s1 = s\<lparr>published := Some (customModelFiles s)\<rparr>
      in if length (customModelFiles s) > 0 then
           s1\<lparr>caches :=
                 caches_store (caches s1) ''custom-model-cache-v1''
                   (cache_put_all Response_of_blob origin (customModelFiles s)
                      (caches_open (caches s1) ''custom-model-cache-v1'')),
               indexedDB := Some (customModelFiles s)\<rparr>
         else s1)"

text \<open>
  A new upload: \<open>setCustomModelFiles(newMap)\<close>, then the two effects that depend on
  \<open>customModelFiles\<close>, in the order of their declaration.
\<close>

definition setCustomModelFiles ::
    "(blob \<Rightarrow> config_json option) \<Rightarrow> (blob \<Rightarrow> tokenizer_json option) \<Rightarrow> string \<Rightarrow>
     files \<Rightarrow> app \<Rightarrow> app" where
  "setCustomModelFiles parse_config parse_tokenizer origin newMap s =
     saveFiles origin (parseConfigs parse_config parse_tokenizer (s\<lparr>customModelFiles := newMap\<rparr>))"


section \<open>Loading the model\<close>

text \<open>
  What the platform answers during one call of \<open>loadOfflineModel\<close>:
  \<open>window.location.origin\<close>, whether the browser
  has service workers, whether \<open>navigator.serviceWorker.ready\<close> resolves (a registration has
  an active worker; otherwise the promise stays pending), whether a worker controls the page,
  and how the call of \<open>pipeline\<close> ends.
\<close>

datatype pipeline_outcome = PipelineOk | PipelineNull | PipelineThrows "string option"

record platform =
  location_origin :: string
  hasServiceWorker :: bool
  swReady :: bool
  swController :: bool
  pipelineOutcome :: pipeline_outcome

datatype load_result = Returned bool app | Thrown string app | Pending app

definition isQuantizedName :: "string \<Rightarrow> bool" where
  "isQuantizedName k =
     (includes_js (toLowerCase k) ''quant'' \<or> includes_js (toLowerCase k) ''uint8''
      \<or> includes_js (toLowerCase k) ''int8'')"

text \<open>The \<open>catch\<close> block of the pipeline call; \<open>msg\<close> is \<open>error.message\<close>.\<close>

definition load_failed :: "string option \<Rightarrow> app \<Rightarrow> load_result" where
  "load_failed msg s =
     (let errorMsg0 = str_or msg ''Model gagal dimuat.'';
          has = (\<lambda>w. case msg of Some m \<Rightarrow> includes_js m w | None \<Rightarrow> False);
          errorMsg =
            (if modelSource s = Custom then
               (if has ''JSON'' then
                  ''Gagal membaca konfigurasi model (JSON error). Pastikan file config.json dan tokenizer.json benar.''
                else if has ''ONNX'' then
                  ''Gagal memuat file ONNX. Pastikan file model .onnx benar dan kompatibel dengan Transformers.js.''
                else ''Gagal memuat model custom: ''
                       @ (case msg of Some m \<Rightarrow> m | None \<Rightarrow> ''undefined''))
             else errorMsg0)
      in Returned False
           (s\<lparr>errorMessage := Some errorMsg,
              isOfflineMode := False,
              isModelLoading := False,
              modelStatus := None,
              progressItems := []\<rparr>))"

text \<open>From \<open>setModelStatus\<close> before the \<open>try\<close> to the end of the function.\<close>

definition run_pipeline :: "platform \<Rightarrow> files \<Rightarrow> string \<Rightarrow> app \<Rightarrow> load_result" where
  "run_pipeline pf filesToUse modelId s =
     (let s1 = s\<lparr>modelStatus :=
                   Some (if modelSource s = Remote then ''Mengunduh model terjemahan...''
                         else ''Memuat model lokal (Upload)...'')\<rparr>;
          isCustom = (modelSource s = Custom);
          isQuantized = (if isCustom then list_ex isQuantizedName (map fst filesToUse) else True);
          s2 = s1\<lparr>pipeline_calls := pipeline_calls s1 @ [(modelId, isQuantized)]\<rparr>
      in case pipelineOutcome pf of
           PipelineOk \<Rightarrow>
             Returned True
               (s2\<lparr>translatorRef := True,
                   loadedModelId := Some modelId,
                   modelProgress := 100,
                   progressItems := [],
                   modelStatus := Some ''Model siap digunakan.'',
                   isModelLoading := False\<rparr>)
         | PipelineNull \<Rightarrow> load_failed (Some ''Pipeline returned null atau undefined'') s2
         | PipelineThrows msg \<Rightarrow> load_failed msg s2)"

definition loadOfflineModel :: "platform \<Rightarrow> files option \<Rightarrow> app \<Rightarrow> load_result" where
  "loadOfflineModel pf overrideFiles s =
     (let filesToUse = (case overrideFiles of Some f \<Rightarrow> f | None \<Rightarrow> customModelFiles s);
          targetModelId = (if modelSource s = Remote then remoteModelId s else ''custom-model'')
      in if translatorRef s \<and> loadedModelId s = Some targetModelId \<and> overrideFiles = None
         then Returned True s
         else if isModelLoading s then Returned False s
         else
           (let s1 = (if loadedModelId s \<noteq> Some targetModelId then s\<lparr>translatorRef := False\<rparr>
                      else s);
                s2 = s1\<lparr>isModelLoading := True, progressItems := [], modelProgress := 0,
                        errorMessage := None\<rparr>
            in case modelSource s of
                 Remote \<Rightarrow>
                   run_pipeline pf filesToUse (remoteModelId s)
                     (s2\<lparr>env := \<lparr>localModelPath = [],
                                  allowRemoteModels = True,
                                  allowLocalModels = False,
                                  remoteHost = ''https://huggingface.co'',
                                  remotePathTemplate = ''{model}/resolve/{revision}/''\<rparr>\<rparr>)
               | Custom \<Rightarrow>
                   if \<not> hasServiceWorker pf then
                     Thrown ''Browser tidak mendukung Service Worker. Gunakan Chrome/Edge modern.'' s2
                   else
                     (let s3 = s2\<lparr>modelStatus := Some ''Menunggu Service Worker aktif...''\<rparr>
                      in if \<not> swReady pf then Pending s3
                         else if \<not> swController pf then
                           Returned False
                             (s3\<lparr>isModelLoading := False,
                                 modelStatus := None,
                                 errorMessage :=
                                   Some ''Service Worker belum siap mengontrol halaman. Silakan refresh halaman (Ctrl+R) dan coba lagi.''\<rparr>)
                         else
                           (let s4 = s3\<lparr>published := Some filesToUse\<rparr>;
                                s5 = s4\<lparr>caches := purge_transformers (caches s4)\<rparr>;
                                s6 = s5\<lparr>caches :=
                                          caches_store (caches s5) ''custom-model-cache-v1''
                                            (cache_put_all Response_with_type (location_origin pf) filesToUse
                                               (caches_open (caches s5) ''custom-model-cache-v1''))\<rparr>;
                                s7 = s6\<lparr>env := \<lparr>localModelPath = location_origin pf @ ''/'',
                                               allowRemoteModels = False,
                                               allowLocalModels = True,
                                               remoteHost = [],
                                               remotePathTemplate = []\<rparr>\<rparr>
                            in run_pipeline pf filesToUse ''custom-model'' s7))))"


section \<open>Sample data\<close>

text \<open>A small upload and a page origin, used to run the definitions on concrete inputs.\<close>

definition sample_origin :: string where
  "sample_origin = ''http://localhost:3000''"

definition blob_config :: blob where
  "blob_config = \<lparr>blob_type = ''application/json'', blob_bytes = ''{}''\<rparr>"

definition blob_encoder :: blob where
  "blob_encoder = \<lparr>blob_type = [], blob_bytes = ''ENC''\<rparr>"

definition blob_decoder :: blob where
  "blob_decoder = \<lparr>blob_type = [], blob_bytes = ''DEC''\<rparr>"

definition blob_merged :: blob where
  "blob_merged = \<lparr>blob_type = [], blob_bytes = ''MRG''\<rparr>"


text \<open>
  The page right after start with the custom source selected: nothing uploaded, nothing
  loaded, no cache yet, the Transformers.js settings as the module sets them (remote host
  and path template as the library ships them).
\<close>

definition app0 :: app where
  "app0 =
     \<lparr>modelSource = Custom,
      remoteModelId = ''Xenova/opus-mt-en-id'',
      customModelFiles = [],
      modelConfig = None,
      translatorRef = False,
      loadedModelId = None,
      isModelLoading = False,
      isOfflineMode = True,
      progressItems = [],
      modelProgress = 0,
      modelStatus = None,
      errorMessage = None,
      env = \<lparr>localModelPath = [],
             allowRemoteModels = True,
             allowLocalModels = True,
             remoteHost = ''https://huggingface.co/'',
             remotePathTemplate = ''{model}/resolve/{revision}/''\<rparr>,
      published = None,
      caches = [],
      indexedDB = None,
      pipeline_calls = []\<rparr>"


text \<open>A decoder of configuration documents that accepts the text \<open>{}\<close> and nothing else.\<close>

definition parse_config_sample :: "blob \<Rightarrow> config_json option" where
  "parse_config_sample b =
     (if blob_bytes b = ''{}''
      then Some \<lparr>architectures = None, model_type = None, is_encoder_decoder = False\<rparr>
      else None)"

definition parse_tokenizer_sample :: "blob \<Rightarrow> tokenizer_json option" where
  "parse_tokenizer_sample b =
     (if blob_bytes b = ''{}''
      then Some \<lparr>tokenizer_class = None, tokenizer_model_type = None\<rparr>
      else None)"

definition blob_broken :: blob where
  "blob_broken = \<lparr>blob_type = ''application/json'', blob_bytes = ''{ not json''\<rparr>"

text \<open>A browser where the worker controls the page and the pipeline loads.\<close>

definition platform_controlled :: platform where
  "platform_controlled =
     \<lparr>location_origin = ''http://localhost:3000'',
      hasServiceWorker = True,
      swReady = True,
      swController = True,
      pipelineOutcome = PipelineOk\<rparr>"

text \<open>
  A cache of Transformers.js that holds a page of HTML once served for a missing
  \<open>config.json\<close> of the custom model, and a file of a remote model.
\<close>

definition stale_html :: response where
  "stale_html =
     \<lparr>status = 200, headers = [(''Content-Type'', ''text/html'')],
      body = TextBody ''<!doctype html>''\<rparr>"

definition remote_config :: response where
  "remote_config =
     \<lparr>status = 200, headers = [(''Content-Type'', ''application/json'')],
      body = TextBody ''{}''\<rparr>"

definition tx_storage :: cache_storage where
  "tx_storage =
     [(''transformers-cache'',
       [(''http://localhost:3000/custom-model/config.json'', stale_html),
        (''https://huggingface.co/Xenova/opus-mt-en-id/resolve/main/config.json'',
         remote_config)])]"



section \<open>Facts about the string operations\<close>

lemma split_from_nonempty: "split_from sep cur s \<noteq> []"
  by (induction sep cur s rule: split_from.induct) auto

lemma takeWhile_neq_all: "c \<notin> set xs \<Longrightarrow> takeWhile (\<lambda>x. x \<noteq> c) (xs @ c # ys) = xs"
  by (induction xs) auto

lemma takeWhile_neq_skip:
  "c \<in> set xs \<Longrightarrow> takeWhile (\<lambda>x. x \<noteq> c) (xs @ ys) = takeWhile (\<lambda>x. x \<noteq> c) xs"
  by (induction xs) auto

text \<open>Splitting at a single character: the last piece is what follows its last occurrence.\<close>

lemma last_split_from_char:
  "last (split_from [c] cur s) =
     (if c \<in> set s then rev (takeWhile (\<lambda>x. x \<noteq> c) (rev s)) else rev cur @ s)"
proof (induction "[c]" cur s rule: split_from.induct)
  case (1 cur)
  then show ?case by simp
next
  case (2 cur d s)
  show ?case
  proof (cases "d = c")
    case True
    with 2 show ?thesis
      by (auto simp: split_from_nonempty takeWhile_neq_all takeWhile_neq_skip)
  next
    case False
    with 2 show ?thesis
      by (auto simp: split_from_nonempty takeWhile_neq_all takeWhile_neq_skip)
  qed
qed

lemma hd_split_from_char:
  "hd (split_from [c] cur s) = rev cur @ takeWhile (\<lambda>x. x \<noteq> c) s"
  by (induction "[c]" cur s rule: split_from.induct) auto

lemma last_split_js_char:
  "last (split_js s [c]) = rev (takeWhile (\<lambda>x. x \<noteq> c) (rev s))"
proof (cases "c \<in> set s")
  case True
  then show ?thesis by (simp add: split_js_def last_split_from_char)
next
  case False
  then have "takeWhile (\<lambda>x. x \<noteq> c) (rev s) = rev s"
    by (auto simp: takeWhile_eq_all_conv)
  then have "rev (takeWhile (\<lambda>x. x \<noteq> c) (rev s)) = s"
    by (simp only: rev_rev_ident)
  moreover have "last (split_js s [c]) = s"
    using False by (simp add: split_js_def last_split_from_char)
  ultimately show ?thesis by (simp only:)
qed

lemma hd_split_js_char: "hd (split_js s [c]) = takeWhile (\<lambda>x. x \<noteq> c) s"
  by (simp add: split_js_def hd_split_from_char)

lemma basename_suffix:
  assumes "suffix w s" "c \<notin> set w"
  shows "suffix w (last (split_js s [c]))"
proof -
  from assms(1) obtain p where s: "s = p @ w" by (auto simp: suffix_def)
  have "takeWhile (\<lambda>x. x \<noteq> c) (rev w @ rev p) = rev w @ takeWhile (\<lambda>x. x \<noteq> c) (rev p)"
    using assms(2) by (intro takeWhile_append2) auto
  then show ?thesis
    by (simp add: last_split_js_char s suffix_def)
qed


lemma endsWith_sw_basename:
  "endsWith rel ''.onnx'' \<Longrightarrow> endsWith (sw_basename rel) ''.onnx''"
  unfolding endsWith_def sw_basename_def Let_def
  using basename_suffix[of "''.onnx''" rel "CHR ''/''"] by auto

text \<open>A word without the character \<open>x\<close> cannot lie across an \<open>x\<close>.\<close>

lemma sublist_across:
  assumes "x \<notin> set w"
  shows "sublist w (A @ x # B) \<longleftrightarrow> sublist w A \<or> sublist w B"
proof
  assume "sublist w (A @ x # B)"
  then consider "sublist w A" | "sublist w (x # B)"
    | w1 w2 where "w = w1 @ w2" "suffix w1 A" "prefix w2 (x # B)"
    by (auto simp: sublist_append)
  then show "sublist w A \<or> sublist w B"
  proof cases
    case 1 then show ?thesis by simp
  next
    case 2
    then have "prefix w (x # B) \<or> sublist w B" by (simp add: sublist_Cons_right)
    with assms show ?thesis by (cases w) (auto)
  next
    case 3
    with assms have "w2 = []" by (cases w2) auto
    with 3 show ?thesis by (auto intro: suffix_imp_sublist)
  qed
next
  assume "sublist w A \<or> sublist w B"
  then show "sublist w (A @ x # B)"
    by (auto simp: sublist_append sublist_Cons_right)
qed

lemma suffix_across:
  assumes "x \<notin> set w"
  shows "suffix w (A @ x # B) \<longleftrightarrow> suffix w B"
proof
  assume "suffix w (A @ x # B)"
  then have "suffix w (x # B) \<or> (\<exists>w1. w = w1 @ x # B)"
    by (auto simp: suffix_append)
  with assms show "suffix w B" by (auto simp: suffix_Cons)
next
  assume "suffix w B"
  then show "suffix w (A @ x # B)" by (auto simp: suffix_append suffix_Cons)
qed

lemma cache_url_split:
  "cache_url origin name = (origin @ ''/custom-model-files'') @ CHR ''/'' # name"
  by (simp add: cache_url_def)

lemma endsWith_cache_url:
  "endsWith (cache_url origin name) ''.onnx'' \<longleftrightarrow> endsWith name ''.onnx''"
  unfolding endsWith_def cache_url_split by (rule suffix_across) simp

lemma includes_cache_url:
  assumes "CHR ''/'' \<notin> set w" "\<not> sublist w ''custom-model-files''"
  shows "includes_js (toLowerCase (cache_url origin name)) w \<longleftrightarrow>
         includes_js (toLowerCase origin) w \<or> includes_js (toLowerCase name) w"
proof -
  define mid where "mid = ''custom-model-files''"
  have "toLowerCase (cache_url origin name) =
        toLowerCase origin @ CHR ''/'' # (mid @ CHR ''/'' # toLowerCase name)"
    by (simp add: cache_url_def toLowerCase_def lower_char_def mid_def)
  moreover have "\<not> sublist w mid"
    using assms(2) by (simp add: mid_def)
  moreover have "sublist w (toLowerCase origin @ CHR ''/'' # (mid @ CHR ''/'' # toLowerCase name))
      \<longleftrightarrow> sublist w (toLowerCase origin) \<or> sublist w (mid @ CHR ''/'' # toLowerCase name)"
    using assms(1) by (rule sublist_across)
  moreover have "sublist w (mid @ CHR ''/'' # toLowerCase name)
      \<longleftrightarrow> sublist w mid \<or> sublist w (toLowerCase name)"
    using assms(1) by (rule sublist_across)
  ultimately show ?thesis
    by (simp add: includes_js_def)
qed


section \<open>Facts about the shared cache\<close>

lemma map_of_cache_put:
  "map_of (cache_put c u r) u' = (if u' = u then Some r else map_of c u')"
  by (induction c) (auto simp: cache_put_def cache_delete_def)

lemma cache_url_inj [simp]: "cache_url origin a = cache_url origin b \<longleftrightarrow> a = b"
  by (simp add: cache_url_def)

text \<open>After the loop of \<open>cache.put\<close>, a URL holds what the map gave it, or what it held before.\<close>

lemma map_of_cache_put_all:
  "distinct (map fst fs) \<Longrightarrow>
   map_of (cache_put_all mk origin fs c) u =
     (case map_of (map (\<lambda>(n, b). (cache_url origin n, mk b)) fs) u of
        Some r \<Rightarrow> Some r
      | None \<Rightarrow> map_of c u)"
proof (induction fs arbitrary: c)
  case Nil
  then show ?case by (simp add: cache_put_all_def)
next
  case (Cons e fs)
  obtain n b where e: "e = (n, b)" by (cases e)
  from Cons.prems have d: "distinct (map fst fs)" and n: "n \<notin> fst ` set fs"
    by (auto simp: e)
  have none: "map_of (map (\<lambda>(n, b). (cache_url origin n, mk b)) fs) (cache_url origin n) = None"
    using n by (auto simp: map_of_eq_None_iff image_iff)
  have "cache_put_all mk origin (e # fs) c =
        cache_put_all mk origin fs (cache_put c (cache_url origin n) (mk b))"
    by (simp add: cache_put_all_def e)
  then show ?case
    using Cons.IH[OF d, of "cache_put c (cache_url origin n) (mk b)"] none
    by (auto simp: e map_of_cache_put split: option.splits)
qed

lemma map_of_synced_key:
  "map_of (map (\<lambda>(n, b). (cache_url origin n, mk b)) fs) (cache_url origin k) =
     map_option mk (map_of fs k)"
  by (induction fs) auto

lemma cache_match_put_all:
  assumes "files_ok fs" "map_of fs k = Some b"
  shows "cache_match (cache_put_all mk origin fs c) (cache_url origin k) = Some (mk b)"
  using assms by (simp add: cache_match_def files_ok_def map_of_cache_put_all map_of_synced_key)


section \<open>The exact name wins\<close>

text \<open>
  C5.  A requested name that is a key of the asset map resolves to the blob stored under
  that very name, in both responders, whatever the fuzzy tiers would have chosen: the
  interceptor returns the blob, and the worker, on a shared cache into which the map has
  been written (on top of any earlier content \<open>c\<close>), returns the response stored for that
  blob.
\<close>

theorem exact_name_wins:
  assumes "map_of fs name = Some b"
  shows "fetch_lookup fs name (fetch_basename name) = Some b
         \<and> (files_ok fs \<longrightarrow>
              sw_lookup origin (cache_put_all mk origin fs c) name (sw_basename name)
                = Some (mk b))"
proof (intro conjI impI)
  show "fetch_lookup fs name (fetch_basename name) = Some b"
    using assms by (simp add: fetch_lookup_def or_else_def)
next
  assume "files_ok fs"
  then have "cache_match (cache_put_all mk origin fs c) (cache_url origin name) = Some (mk b)"
    using assms by (rule cache_match_put_all)
  then show "sw_lookup origin (cache_put_all mk origin fs c) name (sw_basename name) = Some (mk b)"
    by (simp add: sw_lookup_def)
qed

theorem exact_name_wins_witness:
  "fetch_lookup
     [(''encoder_model.onnx'', blob_encoder), (''onnx/encoder_model.onnx'', blob_merged)]
     ''onnx/encoder_model.onnx'' (fetch_basename ''onnx/encoder_model.onnx'') = Some blob_merged
   \<and> sw_lookup sample_origin
       (cache_put_all Response_of_blob sample_origin
          [(''encoder_model.onnx'', blob_encoder), (''onnx/encoder_model.onnx'', blob_merged)] [])
       ''onnx/encoder_model.onnx'' (sw_basename ''onnx/encoder_model.onnx'')
       = Some (Response_of_blob blob_merged)"
proof -
  have h: "map_of [(''encoder_model.onnx'', blob_encoder), (''onnx/encoder_model.onnx'', blob_merged)]
             ''onnx/encoder_model.onnx'' = Some blob_merged"
    by simp
  have ok: "files_ok [(''encoder_model.onnx'', blob_encoder), (''onnx/encoder_model.onnx'', blob_merged)]"
    by (simp add: files_ok_def)
  from exact_name_wins[OF h, of sample_origin Response_of_blob "[]"] ok
  show ?thesis by simp
qed


section \<open>When the interceptor answers\<close>

text \<open>
  C10.  The interceptor answers a request itself (with a 200 or a 404) only when the
  published map exists and has at least one entry, and then only for a URL containing
  \<open>/custom-model/\<close>; when the map is undefined or empty, every call, also one under the
  reserved prefix, goes to the original \<open>fetch\<close> with its arguments unchanged.
\<close>

theorem fetch_interceptor_gate:
  "((pub = None \<or> pub = Some []) \<longrightarrow> fetch_interceptor pub arg = OriginalFetch arg)
   \<and> (fetch_interceptor pub arg = Responded r \<longrightarrow>
        (\<exists>fs url. pub = Some fs \<and> fs \<noteq> [] \<and> arg = Some url
                  \<and> includes_js url ''/custom-model/''
                  \<and> (status r = 200 \<or> status r = 404)))"
  by (auto simp: fetch_interceptor_def Let_def split: option.splits if_splits)

theorem fetch_interceptor_gate_witness:
  "fetch_interceptor (Some []) (Some ''http://localhost:3000/custom-model/config.json'')
     = OriginalFetch (Some ''http://localhost:3000/custom-model/config.json'')
   \<and> fetch_interceptor None (Some ''http://localhost:3000/custom-model/config.json'')
     = OriginalFetch (Some ''http://localhost:3000/custom-model/config.json'')
   \<and> fetch_interceptor (Some [(''config.json'', blob_config)])
        (Some ''http://localhost:3000/custom-model/tokenizer.json'')
     = Responded \<lparr>status = 404, headers = [(''Content-Type'', ''text/plain'')],
                   body = TextBody ''File not found: tokenizer.json''\<rparr>
   \<and> includes_js ''http://localhost:3000/custom-model/tokenizer.json'' ''/custom-model/''"
proof -
  have a: "fetch_interceptor (Some []) (Some ''http://localhost:3000/custom-model/config.json'')
             = OriginalFetch (Some ''http://localhost:3000/custom-model/config.json'')"
    using fetch_interceptor_gate[of "Some []" "Some ''http://localhost:3000/custom-model/config.json''"]
    by simp
  have b: "fetch_interceptor None (Some ''http://localhost:3000/custom-model/config.json'')
             = OriginalFetch (Some ''http://localhost:3000/custom-model/config.json'')"
    using fetch_interceptor_gate[of None "Some ''http://localhost:3000/custom-model/config.json''"]
    by simp
  have r: "fetch_interceptor (Some [(''config.json'', blob_config)])
             (Some ''http://localhost:3000/custom-model/tokenizer.json'')
           = Responded \<lparr>status = 404, headers = [(''Content-Type'', ''text/plain'')],
                         body = TextBody ''File not found: tokenizer.json''\<rparr>"
    by code_simp
  have c: "includes_js ''http://localhost:3000/custom-model/tokenizer.json'' ''/custom-model/''"
    using fetch_interceptor_gate[of "Some [(''config.json'', blob_config)]"
        "Some ''http://localhost:3000/custom-model/tokenizer.json''"
        "\<lparr>status = 404, headers = [(''Content-Type'', ''text/plain'')],
          body = TextBody ''File not found: tokenizer.json''\<rparr>"] r
    by simp
  from a b r c show ?thesis by simp
qed


section \<open>The fuzzy tiers\<close>

lemma find_SomeD: "find P xs = Some m \<Longrightarrow> m \<in> set xs \<and> P m"
  by (induction xs) (auto split: if_splits)

lemma find_map_comp: "find P (map f xs) = map_option f (find (P \<circ> f) xs)"
  by (induction xs) auto

lemma cache_put_fresh:
  "u \<notin> fst ` set c \<Longrightarrow> cache_put c u r = c @ [(u, r)]"
  by (induction c) (auto simp: cache_put_def cache_delete_def)

lemma cache_put_all_fresh:
  "distinct (map fst fs) \<Longrightarrow> \<forall>n \<in> fst ` set fs. cache_url origin n \<notin> fst ` set c \<Longrightarrow>
   cache_put_all mk origin fs c = c @ map (\<lambda>(n, b). (cache_url origin n, mk b)) fs"
proof (induction fs arbitrary: c)
  case Nil
  then show ?case by (simp add: cache_put_all_def)
next
  case (Cons e fs)
  obtain n b where e: "e = (n, b)" by (cases e)
  let ?c = "c @ [(cache_url origin n, mk b)]"
  have step: "cache_put c (cache_url origin n) (mk b) = ?c"
    using Cons.prems(2) by (intro cache_put_fresh) (auto simp: e)
  have d: "distinct (map fst fs)" using Cons.prems(1) by simp
  have fresh: "\<forall>m \<in> fst ` set fs. cache_url origin m \<notin> fst ` set ?c"
    using Cons.prems by (auto simp: e image_iff)
  have "cache_put_all mk origin (e # fs) c = cache_put_all mk origin fs ?c"
    by (simp add: cache_put_all_def e step)
  also have "\<dots> = ?c @ map (\<lambda>(n, b). (cache_url origin n, mk b)) fs"
    using Cons.IH[OF d fresh] .
  finally show ?case by (simp add: e)
qed

lemma cache_put_all_empty:
  "files_ok fs \<Longrightarrow> cache_put_all mk origin fs [] = map (\<lambda>(n, b). (cache_url origin n, mk b)) fs"
  using cache_put_all_fresh[of fs origin "[]" mk] by (simp add: files_ok_def)

lemma cache_keys_synced:
  "cache_keys (map (\<lambda>(n, b). (cache_url origin n, mk b)) fs) = map (cache_url origin) (map fst fs)"
  by (induction fs) (auto simp: cache_keys_def)

lemma cache_match_synced:
  "cache_match (map (\<lambda>(n, b). (cache_url origin n, mk b)) fs) (cache_url origin k)
     = map_option mk (map_of fs k)"
  by (simp add: cache_match_def map_of_synced_key)

lemma filter_onnx_urls:
  "filter (\<lambda>k. endsWith k ''.onnx'') (map (cache_url origin) ns)
     = map (cache_url origin) (filter (\<lambda>k. endsWith k ''.onnx'') ns)"
  by (induction ns) (auto simp: endsWith_cache_url)

lemma fetch_basename_last: "fetch_basename rel = last (split_js rel ''/'')"
  by (simp add: fetch_basename_def Let_def)

lemma sw_basename_eq: "fetch_basename rel \<noteq> [] \<Longrightarrow> sw_basename rel = fetch_basename rel"
  by (simp add: fetch_basename_def sw_basename_def Let_def)

lemma endsWith_onnx_nonempty: "endsWith s ''.onnx'' \<Longrightarrow> s \<noteq> []"
  by (auto simp: endsWith_def)

lemma single_onnx_find:
  assumes "filter (\<lambda>k. endsWith k ''.onnx'') ns = [n]"
    and "find (\<lambda>k. Q k \<and> endsWith k ''.onnx'') ns = Some m"
  shows "m = n"
proof -
  from find_SomeD[OF assms(2)] have "m \<in> set (filter (\<lambda>k. endsWith k ''.onnx'') ns)" by simp
  with assms(1) show ?thesis by simp
qed


lemma sw_single:
  assumes single: "filter (\<lambda>k. endsWith k ''.onnx'') (map fst fs) = [n]"
    and stored: "map_of fs n = Some b"
    and req: "endsWith base ''.onnx''"
    and miss1: "map_of fs name = None"
    and miss2: "map_of fs base = None"
  shows "sw_lookup origin (map (\<lambda>(n, b). (cache_url origin n, mk b)) fs) name base = Some (mk b)"
proof -
  let ?c = "map (\<lambda>(n, b). (cache_url origin n, mk b)) fs"
  have keys: "cache_keys ?c = map (cache_url origin) (map fst fs)"
    by (rule cache_keys_synced)
  have onnx: "filter (\<lambda>k. endsWith k ''.onnx'') (cache_keys ?c) = [cache_url origin n]"
    by (simp only: keys filter_onnx_urls single list.map)
  have hit: "cache_match ?c (cache_url origin n) = Some (mk b)"
    by (simp add: cache_match_synced stored)
  have K: "\<And>Q m. find (\<lambda>k. Q k \<and> endsWith k ''.onnx'') (cache_keys ?c) = Some m
              \<Longrightarrow> cache_match ?c m = Some (mk b)"
    using single_onnx_find[OF onnx] hit by blast
  have m1: "cache_match ?c (cache_url origin name) = None"
    by (simp add: cache_match_synced miss1)
  have m2: "cache_match ?c (cache_url origin base) = None"
    by (simp add: cache_match_synced miss2)
  show ?thesis
    unfolding sw_lookup_def Let_def
    using onnx hit req m1 m2
    by (auto dest: K split: option.splits)
qed


text \<open>
  The keys of the shared cache after the map has been written over an earlier content:
  the earlier keys that the map does not name, then the URLs of the map in its order.
\<close>

lemma cache_keys_put:
  "cache_keys (cache_put c u r) = filter (\<lambda>k. k \<noteq> u) (cache_keys c) @ [u]"
  by (simp add: cache_put_def cache_delete_def cache_keys_def filter_map comp_def)

lemma cache_keys_put_all:
  "distinct (map fst fs) \<Longrightarrow>
   cache_keys (cache_put_all mk origin fs c)
     = filter (\<lambda>u. u \<notin> cache_url origin ` fst ` set fs) (cache_keys c)
       @ map (cache_url origin) (map fst fs)"
proof (induction fs arbitrary: c)
  case Nil
  then show ?case by (simp add: cache_put_all_def)
next
  case (Cons e fs)
  obtain n b where e: "e = (n, b)" by (cases e)
  from Cons.prems have d: "distinct (map fst fs)" and n: "n \<notin> fst ` set fs"
    by (auto simp: e)
  have new: "cache_url origin n \<notin> cache_url origin ` fst ` set fs"
    using n by (auto simp: image_iff)
  have step: "cache_put_all mk origin (e # fs) c =
        cache_put_all mk origin fs (cache_put c (cache_url origin n) (mk b))"
    by (simp add: cache_put_all_def e)
  have shift: "filter (\<lambda>u. u \<notin> cache_url origin ` fst ` set fs)
          (filter (\<lambda>k. k \<noteq> cache_url origin n) (cache_keys c))
        = filter (\<lambda>u. u \<notin> cache_url origin ` fst ` set (e # fs)) (cache_keys c)"
    by (auto simp: e intro: filter_cong)
  have "cache_keys (cache_put_all mk origin (e # fs) c)
        = cache_keys (cache_put_all mk origin fs (cache_put c (cache_url origin n) (mk b)))"
    by (simp only: step)
  also have "\<dots> = filter (\<lambda>u. u \<notin> cache_url origin ` fst ` set fs)
                      (cache_keys (cache_put c (cache_url origin n) (mk b)))
                  @ map (cache_url origin) (map fst fs)"
    by (rule Cons.IH[OF d])
  also have "\<dots> = filter (\<lambda>u. u \<notin> cache_url origin ` fst ` set fs)
                      (filter (\<lambda>k. k \<noteq> cache_url origin n) (cache_keys c))
                  @ cache_url origin n # map (cache_url origin) (map fst fs)"
    using new by (simp add: cache_keys_put)
  also have "\<dots> = filter (\<lambda>u. u \<notin> cache_url origin ` fst ` set (e # fs)) (cache_keys c)
                  @ map (cache_url origin) (map fst (e # fs))"
    by (simp only: shift) (simp add: e)
  finally show ?case .
qed

lemma find_append_none:
  "\<forall>x\<in>set xs. \<not> P x \<Longrightarrow> find P (xs @ ys) = find P ys"
  by (induction xs) auto

lemma cache_match_put_all_miss:
  assumes "files_ok fs" "map_of fs k = None" "cache_match c (cache_url origin k) = None"
  shows "cache_match (cache_put_all mk origin fs c) (cache_url origin k) = None"
  using assms
  by (simp add: cache_match_def files_ok_def map_of_cache_put_all map_of_synced_key)







subsection \<open>Encoder and decoder requests\<close>

lemma map_of_key_Some: "k \<in> set (map fst fs) \<Longrightarrow> \<exists>b. map_of fs k = Some b"
  by (induction fs) auto

lemma encoder_urls:
  assumes "\<not> includes_js (toLowerCase origin) ''encoder''"
  shows "find (\<lambda>k. includes_js (toLowerCase k) ''encoder'' \<and> endsWith k ''.onnx'')
              (map (cache_url origin) ns)
         = map_option (cache_url origin)
             (find (\<lambda>k. includes_js (toLowerCase k) ''encoder'' \<and> endsWith k ''.onnx'') ns)"
proof -
  have no: "\<not> sublist ''encoder'' ''custom-model-files''"
    by (simp add: sublist_code)
  have "includes_js (toLowerCase (cache_url origin k)) ''encoder''
          \<longleftrightarrow> includes_js (toLowerCase k) ''encoder''" for k
    using includes_cache_url[of "''encoder''" origin k] no assms by simp
  then have "find ((\<lambda>k. includes_js (toLowerCase k) ''encoder'' \<and> endsWith k ''.onnx'') \<circ> cache_url origin) ns
      = find (\<lambda>k. includes_js (toLowerCase k) ''encoder'' \<and> endsWith k ''.onnx'') ns"
    by (intro find_cong) (auto simp: endsWith_cache_url)
  then show ?thesis
    by (simp only: find_map_comp)
qed

lemma fetch_encoder_tier:
  assumes "find (\<lambda>k. includes_js (toLowerCase k) ''encoder'' \<and> endsWith k ''.onnx'')
                (map fst fs) = Some e"
    and "map_of fs e = Some be"
    and "endsWith base ''.onnx''"
    and "map_of fs name = None"
    and "map_of fs base = None"
    and "includes_js (toLowerCase base) ''encoder''"
  shows "fetch_lookup fs name base = Some be"
  unfolding fetch_lookup_def Let_def or_else_def
  by (simp only: assms option.case option.distinct if_True if_False simp_thms)

lemma fetch_decoder_tier:
  assumes "find (\<lambda>k. includes_js (toLowerCase k) ''decoder'' \<and> endsWith k ''.onnx'')
                (map fst fs) = Some d"
    and "map_of fs d = Some bd"
    and "endsWith base ''.onnx''"
    and "map_of fs name = None"
    and "map_of fs base = None"
    and "\<not> includes_js (toLowerCase base) ''encoder''"
    and "includes_js (toLowerCase base) ''decoder'' \<or> includes_js (toLowerCase base) ''merged''"
  shows "fetch_lookup fs name base = Some bd"
  unfolding fetch_lookup_def Let_def or_else_def
  by (simp only: assms option.case option.distinct if_True if_False simp_thms)

lemma sw_encoder_tier:
  assumes "find (\<lambda>k. includes_js (toLowerCase k) ''encoder'' \<and> endsWith k ''.onnx'')
                (cache_keys c) = Some m"
    and "cache_match c m = Some r"
    and "endsWith base ''.onnx''"
    and "cache_match c (cache_url origin name) = None"
    and "cache_match c (cache_url origin base) = None"
    and "includes_js (toLowerCase base) ''encoder''"
  shows "sw_lookup origin c name base = Some r"
  unfolding sw_lookup_def Let_def
  by (simp only: assms option.case option.distinct if_True if_False simp_thms)

lemma sw_encoder_stale:
  assumes ok: "files_ok fs"
    and enc: "find (\<lambda>k. includes_js (toLowerCase k) ''encoder'' \<and> endsWith k ''.onnx'')
                (map fst fs) = Some e"
    and be: "map_of fs e = Some be"
    and req: "endsWith base ''.onnx''"
    and isenc: "includes_js (toLowerCase base) ''encoder''"
    and miss1: "map_of fs name = None"
    and miss2: "map_of fs base = None"
    and org: "\<not> includes_js (toLowerCase origin) ''encoder''"
    and stale: "\<forall>u\<in>set (cache_keys c).
                  includes_js (toLowerCase u) ''encoder'' \<and> endsWith u ''.onnx''
                  \<longrightarrow> u \<in> cache_url origin ` fst ` set fs"
    and c1: "cache_match c (cache_url origin name) = None"
    and c2: "cache_match c (cache_url origin base) = None"
  shows "sw_lookup origin (cache_put_all mk origin fs c) name base = Some (mk be)"
proof (rule sw_encoder_tier[OF _ _ req _ _ isenc])
  let ?c = "cache_put_all mk origin fs c"
  let ?old = "filter (\<lambda>u. u \<notin> cache_url origin ` fst ` set fs) (cache_keys c)"
  let ?P = "\<lambda>k. includes_js (toLowerCase k) ''encoder'' \<and> endsWith k ''.onnx''"
  have keys: "cache_keys ?c = ?old @ map (cache_url origin) (map fst fs)"
    using ok by (simp add: files_ok_def cache_keys_put_all)
  have none: "\<forall>x\<in>set ?old. \<not> ?P x"
    using stale by auto
  have "find ?P (cache_keys ?c) = find ?P (map (cache_url origin) (map fst fs))"
    unfolding keys using none by (rule find_append_none)
  then show "find ?P (cache_keys ?c) = Some (cache_url origin e)"
    by (simp only: encoder_urls[OF org] enc option.map)
  show "cache_match ?c (cache_url origin e) = Some (mk be)"
    using ok be by (rule cache_match_put_all)
  show "cache_match ?c (cache_url origin name) = None"
    using ok miss1 c1 by (rule cache_match_put_all_miss)
  show "cache_match ?c (cache_url origin base) = None"
    using ok miss2 c2 by (rule cache_match_put_all_miss)
qed

text \<open>
  C7, as amended.  Let the map hold an \<open>.onnx\<close> file whose lower-cased name contains
  \<open>encoder\<close> (the first such is \<open>e\<close>) and one whose name contains \<open>decoder\<close> (the first
  such is \<open>d\<close>), and let the request be for an \<open>.onnx\<close> basename that is not a key, neither
  with its path nor alone.  If the basename contains \<open>encoder\<close>, the interceptor resolves it
  to the blob of \<open>e\<close>; so does the worker, on the shared cache into which the map has been
  written, provided the origin of the page does not itself contain \<open>encoder\<close> (the worker
  tests the whole URL of a key) and the cache held, before, no \<open>.onnx\<close> key with \<open>encoder\<close>
  other than URLs of the map and nothing under the requested name or its last segment.  If
  the basename contains \<open>decoder\<close> or \<open>merged\<close> and not \<open>encoder\<close>, the interceptor resolves
  it to the blob of \<open>d\<close>.
\<close>

theorem keyword_tiers:
  assumes ok: "files_ok fs"
    and enc: "find (\<lambda>k. includes_js (toLowerCase k) ''encoder'' \<and> endsWith k ''.onnx'')
                (map fst fs) = Some e"
    and dec: "find (\<lambda>k. includes_js (toLowerCase k) ''decoder'' \<and> endsWith k ''.onnx'')
                (map fst fs) = Some d"
    and req: "endsWith (fetch_basename name) ''.onnx''"
    and miss1: "map_of fs name = None"
    and miss2: "map_of fs (fetch_basename name) = None"
  shows "\<exists>be bd. map_of fs e = Some be \<and> map_of fs d = Some bd
     \<and> (includes_js (toLowerCase (fetch_basename name)) ''encoder'' \<longrightarrow>
          fetch_lookup fs name (fetch_basename name) = Some be
          \<and> (\<not> includes_js (toLowerCase origin) ''encoder''
             \<and> (\<forall>u\<in>set (cache_keys c).
                   includes_js (toLowerCase u) ''encoder'' \<and> endsWith u ''.onnx''
                   \<longrightarrow> u \<in> cache_url origin ` fst ` set fs)
             \<and> cache_match c (cache_url origin name) = None
             \<and> cache_match c (cache_url origin (fetch_basename name)) = None
             \<longrightarrow> sw_lookup origin (cache_put_all mk origin fs c) name (sw_basename name)
                   = Some (mk be)))
     \<and> (\<not> includes_js (toLowerCase (fetch_basename name)) ''encoder''
        \<and> (includes_js (toLowerCase (fetch_basename name)) ''decoder''
           \<or> includes_js (toLowerCase (fetch_basename name)) ''merged'') \<longrightarrow>
          fetch_lookup fs name (fetch_basename name) = Some bd)"
proof -
  have "e \<in> set (map fst fs)"
    using find_SomeD[OF enc] by (rule conjunct1)
  then have "\<exists>b. map_of fs e = Some b"
    by (rule map_of_key_Some)
  then obtain be where be: "map_of fs e = Some be" ..
  have "d \<in> set (map fst fs)"
    using find_SomeD[OF dec] by (rule conjunct1)
  then have "\<exists>b. map_of fs d = Some b"
    by (rule map_of_key_Some)
  then obtain bd where bd: "map_of fs d = Some bd" ..
  have eq: "sw_basename name = fetch_basename name"
    using req by (intro sw_basename_eq endsWith_onnx_nonempty)
  show ?thesis
  proof (intro exI conjI impI)
    show "map_of fs e = Some be" by (rule be)
    show "map_of fs d = Some bd" by (rule bd)
    show "fetch_lookup fs name (fetch_basename name) = Some be"
      if "includes_js (toLowerCase (fetch_basename name)) ''encoder''"
      using enc be req miss1 miss2 that by (rule fetch_encoder_tier)
    show "sw_lookup origin (cache_put_all mk origin fs c) name (sw_basename name) = Some (mk be)"
      if isenc: "includes_js (toLowerCase (fetch_basename name)) ''encoder''"
        and w: "\<not> includes_js (toLowerCase origin) ''encoder''
             \<and> (\<forall>u\<in>set (cache_keys c).
                   includes_js (toLowerCase u) ''encoder'' \<and> endsWith u ''.onnx''
                   \<longrightarrow> u \<in> cache_url origin ` fst ` set fs)
             \<and> cache_match c (cache_url origin name) = None
             \<and> cache_match c (cache_url origin (fetch_basename name)) = None"
      unfolding eq
      using ok enc be req isenc miss1 miss2 w[THEN conjunct1]
        w[THEN conjunct2, THEN conjunct1] w[THEN conjunct2, THEN conjunct2, THEN conjunct1]
        w[THEN conjunct2, THEN conjunct2, THEN conjunct2]
      by (rule sw_encoder_stale)
    show "fetch_lookup fs name (fetch_basename name) = Some bd"
      if "\<not> includes_js (toLowerCase (fetch_basename name)) ''encoder''
        \<and> (includes_js (toLowerCase (fetch_basename name)) ''decoder''
           \<or> includes_js (toLowerCase (fetch_basename name)) ''merged'')"
      using dec bd req miss1 miss2 that[THEN conjunct1] that[THEN conjunct2]
      by (rule fetch_decoder_tier)
  qed
qed

theorem keyword_tiers_witness:
  "fetch_lookup [(''encoder_model.onnx'', blob_encoder), (''decoder_model.onnx'', blob_decoder)]
     ''onnx/encoder_model_quantized.onnx'' (fetch_basename ''onnx/encoder_model_quantized.onnx'')
     = Some blob_encoder
   \<and> sw_lookup sample_origin
       (cache_put_all Response_of_blob sample_origin
          [(''encoder_model.onnx'', blob_encoder), (''decoder_model.onnx'', blob_decoder)]
          [(cache_url sample_origin ''encoder_model.onnx'', Response_of_blob blob_merged),
           (cache_url sample_origin ''old_model.onnx'', Response_of_blob blob_merged)])
       ''onnx/encoder_model_quantized.onnx'' (sw_basename ''onnx/encoder_model_quantized.onnx'')
     = Some (Response_of_blob blob_encoder)
   \<and> fetch_lookup [(''encoder_model.onnx'', blob_encoder), (''decoder_model.onnx'', blob_decoder)]
     ''onnx/decoder_model_merged_quantized.onnx''
     (fetch_basename ''onnx/decoder_model_merged_quantized.onnx'')
     = Some blob_decoder"
proof -
  let ?fs = "[(''encoder_model.onnx'', blob_encoder), (''decoder_model.onnx'', blob_decoder)]"
  let ?c = "[(cache_url sample_origin ''encoder_model.onnx'', Response_of_blob blob_merged),
             (cache_url sample_origin ''old_model.onnx'', Response_of_blob blob_merged)]"
  let ?n1 = "''onnx/encoder_model_quantized.onnx''"
  let ?n2 = "''onnx/decoder_model_merged_quantized.onnx''"
  have ok: "files_ok ?fs" by (simp add: files_ok_def)
  have enc: "find (\<lambda>k. includes_js (toLowerCase k) ''encoder'' \<and> endsWith k ''.onnx'')
                (map fst ?fs) = Some ''encoder_model.onnx''" by code_simp
  have dec: "find (\<lambda>k. includes_js (toLowerCase k) ''decoder'' \<and> endsWith k ''.onnx'')
                (map fst ?fs) = Some ''decoder_model.onnx''" by code_simp
  have r1: "endsWith (fetch_basename ?n1) ''.onnx''" by code_simp
  have r2: "endsWith (fetch_basename ?n2) ''.onnx''" by code_simp
  have m1: "map_of ?fs ?n1 = None" by simp
  have m2: "map_of ?fs ?n2 = None" by simp
  have b1: "map_of ?fs (fetch_basename ?n1) = None" by code_simp
  have b2: "map_of ?fs (fetch_basename ?n2) = None" by code_simp
  have i1: "includes_js (toLowerCase (fetch_basename ?n1)) ''encoder''" by code_simp
  have i2: "\<not> includes_js (toLowerCase sample_origin) ''encoder''
             \<and> (\<forall>u\<in>set (cache_keys ?c).
                   includes_js (toLowerCase u) ''encoder'' \<and> endsWith u ''.onnx''
                   \<longrightarrow> u \<in> cache_url sample_origin ` fst ` set ?fs)
             \<and> cache_match ?c (cache_url sample_origin ?n1) = None
             \<and> cache_match ?c (cache_url sample_origin (fetch_basename ?n1)) = None"
    by code_simp
  have i3: "\<not> includes_js (toLowerCase (fetch_basename ?n2)) ''encoder''" by code_simp
  have i4: "includes_js (toLowerCase (fetch_basename ?n2)) ''decoder''" by code_simp
  have e: "map_of ?fs ''encoder_model.onnx'' = Some blob_encoder" by simp
  have d: "map_of ?fs ''decoder_model.onnx'' = Some blob_decoder" by simp
  from keyword_tiers[OF ok enc dec r1 m1 b1, of sample_origin ?c Response_of_blob] i1 i2 e
  have A: "fetch_lookup ?fs ?n1 (fetch_basename ?n1) = Some blob_encoder
     \<and> sw_lookup sample_origin (cache_put_all Response_of_blob sample_origin ?fs ?c) ?n1
          (sw_basename ?n1) = Some (Response_of_blob blob_encoder)"
    by (elim exE conjE) (simp only: option.inject simp_thms)
  from keyword_tiers[OF ok enc dec r2 m2 b2, of sample_origin ?c Response_of_blob] i3 i4 d
  have B: "fetch_lookup ?fs ?n2 (fetch_basename ?n2) = Some blob_decoder"
    by (elim exE conjE) (simp only: option.inject simp_thms)
  from A B show ?thesis by (simp only: simp_thms)
qed

text \<open>
  C7 as stated fails: a request whose name contains \<open>merged\<close> and is stored under that
  very name resolves to that file and not to the decoder file, and a request whose name
  contains \<open>encoder\<close> but does not end in \<open>.onnx\<close> resolves to nothing, although the map
  holds an encoder and a decoder weight file.
\<close>

theorem keyword_tiers_counterexample:
  "find (\<lambda>k. includes_js (toLowerCase k) ''encoder'' \<and> endsWith k ''.onnx'')
     (map fst [(''encoder_model.onnx'', blob_encoder), (''decoder_model.onnx'', blob_decoder),
               (''model_merged.onnx'', blob_merged)]) = Some ''encoder_model.onnx''
   \<and> find (\<lambda>k. includes_js (toLowerCase k) ''decoder'' \<and> endsWith k ''.onnx'')
     (map fst [(''encoder_model.onnx'', blob_encoder), (''decoder_model.onnx'', blob_decoder),
               (''model_merged.onnx'', blob_merged)]) = Some ''decoder_model.onnx''
   \<and> includes_js ''model_merged.onnx'' ''merged''
   \<and> fetch_lookup [(''encoder_model.onnx'', blob_encoder), (''decoder_model.onnx'', blob_decoder),
                   (''model_merged.onnx'', blob_merged)]
        ''model_merged.onnx'' (fetch_basename ''model_merged.onnx'') = Some blob_merged
   \<and> sw_lookup sample_origin
        (cache_put_all Response_of_blob sample_origin
           [(''encoder_model.onnx'', blob_encoder), (''decoder_model.onnx'', blob_decoder),
            (''model_merged.onnx'', blob_merged)] [])
        ''model_merged.onnx'' (sw_basename ''model_merged.onnx'')
        = Some (Response_of_blob blob_merged)
   \<and> blob_merged \<noteq> blob_decoder
   \<and> includes_js ''encoder_config.json'' ''encoder''
   \<and> fetch_lookup [(''encoder_model.onnx'', blob_encoder), (''decoder_model.onnx'', blob_decoder),
                   (''model_merged.onnx'', blob_merged)]
        ''encoder_config.json'' (fetch_basename ''encoder_config.json'') = None
   \<and> sw_lookup sample_origin
        (cache_put_all Response_of_blob sample_origin
           [(''encoder_model.onnx'', blob_encoder), (''decoder_model.onnx'', blob_decoder),
            (''model_merged.onnx'', blob_merged)] [])
        ''encoder_config.json'' (sw_basename ''encoder_config.json'') = None"
  by code_simp


text \<open>
  An encoder file left in the shared cache by an earlier map comes first among the keys
  and is what the worker answers with.
\<close>

lemma stale_encoder_served:
  "map_of [(''encoder_model.onnx'', blob_encoder), (''decoder_model.onnx'', blob_decoder)]
     ''old_encoder.onnx'' = None
   \<and> sw_lookup sample_origin
       (caches_open
          (caches
             (setCustomModelFiles parse_config_sample parse_tokenizer_sample sample_origin
                [(''encoder_model.onnx'', blob_encoder), (''decoder_model.onnx'', blob_decoder)]
                (setCustomModelFiles parse_config_sample parse_tokenizer_sample sample_origin
                   [(''old_encoder.onnx'', blob_merged)] app0)))
          CACHE_NAME)
       ''onnx/encoder_model_quantized.onnx'' (sw_basename ''onnx/encoder_model_quantized.onnx'')
     = Some (Response_of_blob blob_merged)"
  by code_simp


section \<open>The two responders compared\<close>

text \<open>
  C4.  The two responders do not always select the same asset.  After an upload of
  \<open>combined_merged.onnx\<close> and \<open>decoder_model.onnx\<close> (in this order) on a fresh page, a
  request for \<open>onnx/decoder_model_merged_quantized.onnx\<close> is answered by the interceptor
  with the decoder file (it looks for \<open>decoder\<close> first and for \<open>merged\<close> only then) and by
  the worker with the merged file (it takes the first key that contains either word).
\<close>

theorem responders_diverge:
  "fetch_interceptor
     (published
        (setCustomModelFiles parse_config_sample parse_tokenizer_sample sample_origin
           [(''combined_merged.onnx'', blob_merged), (''decoder_model.onnx'', blob_decoder)] app0))
     (Some ''http://localhost:3000/custom-model/onnx/decoder_model_merged_quantized.onnx'')
     = Responded
         \<lparr>status = 200,
          headers = [(''Content-Type'', ''application/octet-stream''),
                     (''Access-Control-Allow-Origin'', ''*'')],
          body = BlobBody blob_decoder\<rparr>
   \<and> sw_fetch_listener sample_origin
       (caches
          (setCustomModelFiles parse_config_sample parse_tokenizer_sample sample_origin
             [(''combined_merged.onnx'', blob_merged), (''decoder_model.onnx'', blob_decoder)] app0))
       ''/custom-model/onnx/decoder_model_merged_quantized.onnx''
     = Some \<lparr>status = 200,
             headers = [(''Access-Control-Allow-Origin'', ''*'')],
             body = BlobBody blob_merged\<rparr>
   \<and> blob_decoder \<noteq> blob_merged"
  by code_simp


section \<open>Requests that nothing matches\<close>

lemma prefix_takeWhile:
  assumes "prefix p s" "c \<notin> set p"
  shows "prefix p (takeWhile (\<lambda>x. x \<noteq> c) s)"
proof -
  from assms(1) obtain t where s: "s = p @ t" by (auto simp: prefix_def)
  have "takeWhile (\<lambda>x. x \<noteq> c) (p @ t) = p @ takeWhile (\<lambda>x. x \<noteq> c) t"
    using assms(2) by (intro takeWhile_append2) auto
  then show ?thesis by (simp add: s)
qed

lemma startsWith_clean:
  "startsWith rawUrl ''/custom-model/'' \<Longrightarrow>
   startsWith (hd (split_js rawUrl ''?'')) ''/custom-model/''"
  unfolding startsWith_def hd_split_js_char
  by (rule prefix_takeWhile) simp_all


text \<open>
  C1, as amended.  For a request under the reserved prefix that no stored asset matches:
  the worker answers 404 with a plain-text body that names the requested file; the
  development server answers 404 with a plain-text body that names the path, whatever is
  stored; the interceptor answers 404 with a plain-text body that names the requested file
  when the published map is not empty.
\<close>

theorem missing_asset_404:
  "(includes_js pathname ''/custom-model/''
      \<and> sw_lookup origin (caches_open st CACHE_NAME) (sw_relative pathname)
           (sw_basename (sw_relative pathname)) = None
    \<longrightarrow> sw_fetch_listener origin st pathname
          = Some \<lparr>status = 404, headers = [(''Content-Type'', ''text/plain'')],
                  body = TextBody (''File kustom tidak ditemukan di cache: ''
                                   @ sw_basename (sw_relative pathname))\<rparr>)
   \<and> (includes_js url ''/custom-model/'' \<and> fs \<noteq> []
      \<and> fetch_lookup fs (fetch_relative url) (fetch_basename (fetch_relative url)) = None
    \<longrightarrow> fetch_interceptor (Some fs) (Some url)
          = Responded \<lparr>status = 404, headers = [(''Content-Type'', ''text/plain'')],
                       body = TextBody (''File not found: ''
                                        @ fetch_basename (fetch_relative url))\<rparr>)
   \<and> (startsWith rawUrl ''/custom-model/''
    \<longrightarrow> customModelNotFoundPlugin (Some rawUrl)
          = Ended \<lparr>status = 404,
                   headers = [(''Content-Type'', ''text/plain''), (''Cache-Control'', ''no-store'')],
                   body = TextBody (''404 Not Found: '' @ hd (split_js rawUrl ''?''))\<rparr>)"
proof (intro conjI impI)
  assume "includes_js pathname ''/custom-model/''
      \<and> sw_lookup origin (caches_open st CACHE_NAME) (sw_relative pathname)
           (sw_basename (sw_relative pathname)) = None"
  then show "sw_fetch_listener origin st pathname
          = Some \<lparr>status = 404, headers = [(''Content-Type'', ''text/plain'')],
                  body = TextBody (''File kustom tidak ditemukan di cache: ''
                                   @ sw_basename (sw_relative pathname))\<rparr>"
    by (simp add: sw_fetch_listener_def serveCustomModel_def Let_def)
next
  assume "includes_js url ''/custom-model/'' \<and> fs \<noteq> []
      \<and> fetch_lookup fs (fetch_relative url) (fetch_basename (fetch_relative url)) = None"
  then show "fetch_interceptor (Some fs) (Some url)
          = Responded \<lparr>status = 404, headers = [(''Content-Type'', ''text/plain'')],
                       body = TextBody (''File not found: ''
                                        @ fetch_basename (fetch_relative url))\<rparr>"
    by (simp add: fetch_interceptor_def Let_def)
next
  assume "startsWith rawUrl ''/custom-model/''"
  then have "startsWith (hd (split_js rawUrl ''?'')) ''/custom-model/''"
    by (rule startsWith_clean)
  then show "customModelNotFoundPlugin (Some rawUrl)
          = Ended \<lparr>status = 404,
                   headers = [(''Content-Type'', ''text/plain''), (''Cache-Control'', ''no-store'')],
                   body = TextBody (''404 Not Found: '' @ hd (split_js rawUrl ''?''))\<rparr>"
    by (simp add: customModelNotFoundPlugin_def Let_def)
qed


theorem missing_asset_404_witness:
  "sw_fetch_listener sample_origin
     (caches (setCustomModelFiles parse_config_sample parse_tokenizer_sample sample_origin
                [(''config.json'', blob_config)] app0))
     ''/custom-model/tokenizer.json''
     = Some \<lparr>status = 404, headers = [(''Content-Type'', ''text/plain'')],
             body = TextBody ''File kustom tidak ditemukan di cache: tokenizer.json''\<rparr>
   \<and> fetch_interceptor (Some [(''config.json'', blob_config)])
       (Some ''http://localhost:3000/custom-model/tokenizer.json?v=3'')
     = Responded \<lparr>status = 404, headers = [(''Content-Type'', ''text/plain'')],
                  body = TextBody ''File not found: tokenizer.json''\<rparr>
   \<and> customModelNotFoundPlugin (Some ''/custom-model/tokenizer.json?v=3'')
     = Ended \<lparr>status = 404,
              headers = [(''Content-Type'', ''text/plain''), (''Cache-Control'', ''no-store'')],
              body = TextBody ''404 Not Found: /custom-model/tokenizer.json''\<rparr>"
proof -
  let ?c = "caches (setCustomModelFiles parse_config_sample parse_tokenizer_sample sample_origin
                [(''config.json'', blob_config)] app0)"
  let ?fs = "[(''config.json'', blob_config)]"
  let ?p = "''/custom-model/tokenizer.json''"
  let ?u = "''http://localhost:3000/custom-model/tokenizer.json?v=3''"
  let ?r = "''/custom-model/tokenizer.json?v=3''"
  have a1: "includes_js ?p ''/custom-model/''" by code_simp
  have a2: "sw_lookup sample_origin (caches_open ?c CACHE_NAME) (sw_relative ?p)
              (sw_basename (sw_relative ?p)) = None"
    by code_simp
  have a3: "sw_basename (sw_relative ?p) = ''tokenizer.json''" by code_simp
  have b1: "includes_js ?u ''/custom-model/''" by code_simp
  have b2: "?fs \<noteq> []" by simp
  have b3: "fetch_lookup ?fs (fetch_relative ?u) (fetch_basename (fetch_relative ?u)) = None"
    by code_simp
  have b4: "fetch_basename (fetch_relative ?u) = ''tokenizer.json''" by code_simp
  have c1: "startsWith ?r ''/custom-model/''" by code_simp
  have c2: "hd (split_js ?r ''?'') = ''/custom-model/tokenizer.json''" by code_simp
  note T = missing_asset_404[of ?p sample_origin ?c ?u ?fs ?r]
  have A: "sw_fetch_listener sample_origin ?c ?p
     = Some \<lparr>status = 404, headers = [(''Content-Type'', ''text/plain'')],
             body = TextBody ''File kustom tidak ditemukan di cache: tokenizer.json''\<rparr>"
    using T[THEN conjunct1, rule_format, OF conjI[OF a1 a2]] by (simp add: a3)
  have B: "fetch_interceptor (Some ?fs) (Some ?u)
     = Responded \<lparr>status = 404, headers = [(''Content-Type'', ''text/plain'')],
                  body = TextBody ''File not found: tokenizer.json''\<rparr>"
    using T[THEN conjunct2, THEN conjunct1, rule_format, OF conjI[OF b1 conjI[OF b2 b3]]]
    by (simp add: b4)
  have C: "customModelNotFoundPlugin (Some ?r)
     = Ended \<lparr>status = 404,
              headers = [(''Content-Type'', ''text/plain''), (''Cache-Control'', ''no-store'')],
              body = TextBody ''404 Not Found: /custom-model/tokenizer.json''\<rparr>"
    using T[THEN conjunct2, THEN conjunct2, rule_format, OF c1] by (simp add: c2)
  from A B C show ?thesis by (simp only: simp_thms)
qed


text \<open>
  C1 as stated fails for the interceptor: while the published map is empty or undefined,
  a request under the reserved prefix that nothing matches is not answered with a 404 but
  handed to the original \<open>fetch\<close>.
\<close>

theorem missing_asset_404_counterexample:
  "includes_js ''http://localhost:3000/custom-model/config.json'' ''/custom-model/''
   \<and> fetch_lookup []
        (fetch_relative ''http://localhost:3000/custom-model/config.json'')
        (fetch_basename (fetch_relative ''http://localhost:3000/custom-model/config.json''))
        = None
   \<and> fetch_interceptor (Some []) (Some ''http://localhost:3000/custom-model/config.json'')
        = OriginalFetch (Some ''http://localhost:3000/custom-model/config.json'')
   \<and> fetch_interceptor None (Some ''http://localhost:3000/custom-model/config.json'')
        = OriginalFetch (Some ''http://localhost:3000/custom-model/config.json'')"
  by code_simp


section \<open>Writing the map to the shared cache\<close>

lemma caches_open_store: "caches_open (caches_store st name c) name = c"
  by (simp add: caches_open_def caches_store_def update_conv')

lemma caches_parseConfigs [simp]: "caches (parseConfigs pc pt s) = caches s"
  by (simp add: parseConfigs_def split: option.splits)

lemma customModelFiles_parseConfigs [simp]:
  "customModelFiles (parseConfigs pc pt s) = customModelFiles s"
  by (simp add: parseConfigs_def split: option.splits)

lemma modelConfig_saveFiles [simp]: "modelConfig (saveFiles origin s) = modelConfig s"
  by (simp add: saveFiles_def Let_def)


lemma map_of_synced_other:
  "u \<notin> cache_url origin ` fst ` set fs \<Longrightarrow>
   map_of (map (\<lambda>(n, b). (cache_url origin n, mk b)) fs) u = None"
  by (induction fs) auto







text \<open>
  Loading the model afterwards does not remove it either: the purge of the loader reaches
  the caches of Transformers.js only.
\<close>

lemma stale_survives_load:
  "(case loadOfflineModel platform_controlled None
           (setCustomModelFiles parse_config_sample parse_tokenizer_sample sample_origin
                   [(''config.json'', blob_config)]
                   (setCustomModelFiles parse_config_sample parse_tokenizer_sample sample_origin
                      [(''old_model.onnx'', blob_merged)] app0)) of
      Returned ok s3 \<Rightarrow>
        ok \<and> cache_match (caches_open (caches s3) CACHE_NAME)
               (cache_url sample_origin ''old_model.onnx'') = Some (Response_of_blob blob_merged)
    | _ \<Rightarrow> False)"
  by code_simp



section \<open>The manifest after an upload\<close>

text \<open>
  When the source is not the custom one or the new map is empty, the effect resets the
  manifest; when the source is the custom one and the new map holds a \<open>config.json\<close> that
  decodes, it sets the manifest built from the new map and that document.
\<close>

lemma manifest_from_current_bag:
  "(modelSource s \<noteq> Custom \<or> newMap = [] \<longrightarrow>
      modelConfig (setCustomModelFiles pc pt origin newMap s) = None)
   \<and> (modelSource s = Custom \<and> map_of newMap ''config.json'' = Some configBlob
        \<and> pc configBlob = Some config \<longrightarrow>
      modelConfig (setCustomModelFiles pc pt origin newMap s)
        = Some (build_manifest pt newMap config))"
  by (auto simp: setCustomModelFiles_def parseConfigs_def)

text \<open>
  In the two other cases, a non-empty map without \<open>config.json\<close> and a \<open>config.json\<close> that
  does not decode, \<open>parseConfigs\<close> sets nothing: the manifest stays what it was.
\<close>

lemma parseConfigs_keeps_manifest:
  "modelSource s = Custom \<Longrightarrow> customModelFiles s \<noteq> [] \<Longrightarrow>
   map_of (customModelFiles s) ''config.json'' = None \<Longrightarrow>
   modelConfig (parseConfigs pc pt s) = modelConfig s"
  by (simp add: parseConfigs_def)

lemma parseConfigs_keeps_manifest_undecoded:
  "modelSource s = Custom \<Longrightarrow> map_of (customModelFiles s) ''config.json'' = Some configBlob \<Longrightarrow>
   pc configBlob = None \<Longrightarrow>
   modelConfig (parseConfigs pc pt s) = modelConfig s"
  by (auto simp: parseConfigs_def)

text \<open>
  C3.  The manifest is not always absent when the current map holds no \<open>config.json\<close>:
  after a map with a \<open>config.json\<close> has been uploaded and its manifest built, the upload of
  a map that holds only \<open>model.onnx\<close> leaves that manifest in place.  \<open>parseConfigs\<close> returns
  at the missing document before it sets anything, where its branch for the empty map
  resets the manifest.
\<close>

theorem manifest_left_over:
  "map_of [(''model.onnx'', blob_merged)] ''config.json'' = None
   \<and> customModelFiles
       (setCustomModelFiles parse_config_sample parse_tokenizer_sample sample_origin
          [(''model.onnx'', blob_merged)]
          (setCustomModelFiles parse_config_sample parse_tokenizer_sample sample_origin
             [(''config.json'', blob_config), (''model.onnx'', blob_merged)] app0))
     = [(''model.onnx'', blob_merged)]
   \<and> modelConfig
       (setCustomModelFiles parse_config_sample parse_tokenizer_sample sample_origin
          [(''model.onnx'', blob_merged)]
          (setCustomModelFiles parse_config_sample parse_tokenizer_sample sample_origin
             [(''config.json'', blob_config), (''model.onnx'', blob_merged)] app0))
     = Some \<lparr>arch = ''Unknown'', modelType = ''Unknown'', tokenizer = ''Standard'',
             isEncoderDecoder = False, requiredWeights = [''model.onnx''],
             hasGenerationConfig = False, hasQuantizeConfig = False\<rparr>"
  by code_simp


section \<open>The purge of the caches of Transformers.js\<close>

lemma purge_fold:
  "fold (\<lambda>key c. if includes_js key p then cache_delete c key else c) ks c
     = filter (\<lambda>e. \<not> (fst e \<in> set ks \<and> includes_js (fst e) p)) c"
proof (induction ks arbitrary: c)
  case Nil
  then show ?case by simp
next
  case (Cons k ks)
  show ?case
    by (auto simp: Cons.IH cache_delete_def intro: filter_cong)
qed

lemma purge_cache_filter:
  "purge_cache c = filter (\<lambda>e. \<not> includes_js (fst e) ''/custom-model/'') c"
  unfolding purge_cache_def cache_keys_def purge_fold
  by (rule filter_cong) auto

lemma purge_cache_idem: "purge_cache (purge_cache c) = purge_cache c"
  by (simp add: purge_cache_filter)

lemma purge_storage_fold:
  "set ns \<subseteq> fst ` set st \<Longrightarrow>
   map_of (fold (\<lambda>cacheName st'. caches_store st' cacheName (purge_cache (caches_open st' cacheName)))
             ns st) n
     = (if n \<in> set ns then map_option purge_cache (map_of st n) else map_of st n)"
proof (induction ns arbitrary: st)
  case Nil
  then show ?case by simp
next
  case (Cons k ns)
  let ?st1 = "caches_store st k (purge_cache (caches_open st k))"
  from Cons.prems obtain ck where ck: "map_of st k = Some ck"
    by (cases "map_of st k") (auto simp: map_of_eq_None_iff)
  have m1: "map_of ?st1 = (map_of st)(k \<mapsto> purge_cache ck)"
    by (simp add: caches_store_def caches_open_def ck update_conv')
  have sub: "set ns \<subseteq> fst ` set ?st1"
    using Cons.prems by (auto simp: caches_store_def dom_update)
  show ?case
    using Cons.IH[OF sub] by (auto simp: m1 ck purge_cache_idem)
qed

lemma map_of_purge_transformers:
  "map_of (purge_transformers st) n
     = (if includes_js n ''transformers'' then map_option purge_cache (map_of st n)
        else map_of st n)"
proof -
  have "set (filter (\<lambda>n. includes_js n ''transformers'') (caches_keys st)) \<subseteq> fst ` set st"
    by (auto simp: caches_keys_def)
  from purge_storage_fold[OF this, of n]
  have fold_eq: "map_of (purge_transformers st) n
      = (if n \<in> fst ` set st \<and> includes_js n ''transformers''
         then map_option purge_cache (map_of st n) else map_of st n)"
    by (simp add: purge_transformers_def Let_def caches_keys_def)
  show ?thesis
  proof (cases "n \<in> fst ` set st")
    case True
    then show ?thesis by (simp add: fold_eq)
  next
    case False
    then have "map_of st n = None" by (simp add: map_of_eq_None_iff)
    then show ?thesis by (simp add: fold_eq)
  qed
qed


lemma suffix_after_scheme: "suffix (after_scheme s) s"
  by (induction s) (auto simp: suffix_Cons intro: suffix_drop)

lemma under_prefix_includes:
  assumes "under_reserved_prefix u"
  shows "includes_js u ''/custom-model/''"
proof -
  let ?d = "dropWhile (\<lambda>c. c \<noteq> CHR ''/'') (after_scheme u)"
  have "prefix ''/custom-model/'' (url_pathname u)"
    using assms by (simp add: under_reserved_prefix_def startsWith_def)
  moreover have "prefix (url_pathname u) ?d"
    unfolding url_pathname_def by (rule takeWhile_is_prefix)
  ultimately have p: "prefix ''/custom-model/'' ?d"
    by (rule prefix_order.trans)
  have "suffix ?d (after_scheme u)" by (rule suffix_dropWhile)
  then have "suffix ?d u"
    using suffix_after_scheme by (rule suffix_order.trans)
  with p have "sublist ''/custom-model/'' u"
    unfolding sublist_altdef' by blast
  then show ?thesis by (simp add: includes_js_def)
qed

text \<open>
  C8, as amended.  In a cache whose name contains \<open>transformers\<close>, the purge deletes
  exactly the entries whose URL contains \<open>/custom-model/\<close> anywhere: what is left is the
  cache without those entries, in the same order.  Every key under the reserved prefix is
  among them and matches nothing afterwards, and every URL that does not contain
  \<open>/custom-model/\<close> matches what it matched before.
\<close>

theorem purge_only_custom_model:
  assumes "includes_js cacheName ''transformers''" and "map_of st cacheName = Some txCache"
  shows "caches_open (purge_transformers st) cacheName
           = filter (\<lambda>e. \<not> includes_js (fst e) ''/custom-model/'') txCache
         \<and> (\<forall>u. includes_js u ''/custom-model/'' \<longrightarrow>
               cache_match (caches_open (purge_transformers st) cacheName) u = None)
         \<and> (\<forall>u. under_reserved_prefix u \<longrightarrow>
               cache_match (caches_open (purge_transformers st) cacheName) u = None)
         \<and> (\<forall>u. \<not> includes_js u ''/custom-model/'' \<longrightarrow>
               cache_match (caches_open (purge_transformers st) cacheName) u
                 = cache_match txCache u)"
proof -
  have eq: "caches_open (purge_transformers st) cacheName
           = filter (\<lambda>e. \<not> includes_js (fst e) ''/custom-model/'') txCache"
    using assms by (simp add: caches_open_def map_of_purge_transformers purge_cache_filter)
  have gone: "map_of (filter (\<lambda>e. \<not> includes_js (fst e) ''/custom-model/'') txCache) u = None"
    if "includes_js u ''/custom-model/''" for u
    using that by (induction txCache) auto
  have kept: "map_of (filter (\<lambda>e. \<not> includes_js (fst e) ''/custom-model/'') txCache) u
                = map_of txCache u"
    if "\<not> includes_js u ''/custom-model/''" for u
    using that by (induction txCache) auto
  show ?thesis
    unfolding eq cache_match_def using gone kept under_prefix_includes by simp
qed

theorem purge_only_custom_model_witness:
  "caches_open (purge_transformers tx_storage) ''transformers-cache''
     = [(''https://huggingface.co/Xenova/opus-mt-en-id/resolve/main/config.json'', remote_config)]
   \<and> cache_match (caches_open (purge_transformers tx_storage) ''transformers-cache'')
       ''http://localhost:3000/custom-model/config.json'' = None
   \<and> under_reserved_prefix ''http://localhost:3000/custom-model/config.json''
   \<and> cache_match (caches_open (purge_transformers tx_storage) ''transformers-cache'')
       ''https://huggingface.co/Xenova/opus-mt-en-id/resolve/main/config.json''
       = Some remote_config"
proof -
  let ?tx = "[(''http://localhost:3000/custom-model/config.json'', stale_html),
        (''https://huggingface.co/Xenova/opus-mt-en-id/resolve/main/config.json'',
         remote_config)]"
  have h1: "includes_js ''transformers-cache'' ''transformers''" by code_simp
  have h2: "map_of tx_storage ''transformers-cache'' = Some ?tx"
    by (simp add: tx_storage_def)
  have i1: "includes_js ''http://localhost:3000/custom-model/config.json'' ''/custom-model/''"
    by code_simp
  have u1: "under_reserved_prefix ''http://localhost:3000/custom-model/config.json''"
    by code_simp
  have i2: "\<not> includes_js ''https://huggingface.co/Xenova/opus-mt-en-id/resolve/main/config.json''
               ''/custom-model/''"
    by code_simp
  have f: "filter (\<lambda>e. \<not> includes_js (fst e) ''/custom-model/'') ?tx
     = [(''https://huggingface.co/Xenova/opus-mt-en-id/resolve/main/config.json'', remote_config)]"
    by code_simp
  note T = purge_only_custom_model[OF h1 h2]
  have a: "caches_open (purge_transformers tx_storage) ''transformers-cache''
     = [(''https://huggingface.co/Xenova/opus-mt-en-id/resolve/main/config.json'', remote_config)]"
    using T[THEN conjunct1] by (simp only: f)
  have b: "cache_match (caches_open (purge_transformers tx_storage) ''transformers-cache'')
       ''http://localhost:3000/custom-model/config.json'' = None"
    using T[THEN conjunct2, THEN conjunct1, rule_format, OF i1] .
  have b': "cache_match (caches_open (purge_transformers tx_storage) ''transformers-cache'')
       ''http://localhost:3000/custom-model/config.json'' = None"
    using T[THEN conjunct2, THEN conjunct2, THEN conjunct1, rule_format, OF u1] .
  have c: "cache_match (caches_open (purge_transformers tx_storage) ''transformers-cache'')
       ''https://huggingface.co/Xenova/opus-mt-en-id/resolve/main/config.json''
       = Some remote_config"
    using T[THEN conjunct2, THEN conjunct2, THEN conjunct2, rule_format, OF i2]
    by (simp add: cache_match_def)
  from a b b' u1 c show ?thesis by (simp only: simp_thms)
qed

text \<open>
  C8 as stated fails: a key that is not under the reserved prefix, the file of a remote
  model whose repository is called \<open>custom-model\<close>, is deleted as well, because the test of
  the purge is \<open>key.url.includes('/custom-model/')\<close>.
\<close>

theorem purge_only_custom_model_counterexample:
  "\<not> under_reserved_prefix ''https://huggingface.co/someone/custom-model/resolve/main/config.json''
   \<and> cache_match
       (caches_open
          [(''transformers-cache'',
            [(''https://huggingface.co/someone/custom-model/resolve/main/config.json'',
              remote_config)])]
          ''transformers-cache'')
       ''https://huggingface.co/someone/custom-model/resolve/main/config.json''
       = Some remote_config
   \<and> cache_match
       (caches_open
          (purge_transformers
             [(''transformers-cache'',
               [(''https://huggingface.co/someone/custom-model/resolve/main/config.json'',
                 remote_config)])])
          ''transformers-cache'')
       ''https://huggingface.co/someone/custom-model/resolve/main/config.json''
       = None"
  by code_simp


text \<open>
  In \<open>loadOfflineModel\<close> the purge comes before the call of \<open>pipeline\<close>: the pipeline of a
  custom model starts on a state whose Transformers.js caches are the purged ones.
\<close>

lemma load_purges_before_pipeline:
  assumes "modelSource s = Custom"
    and "\<not> isModelLoading s"
    and "\<not> (translatorRef s \<and> loadedModelId s = Some ''custom-model'' \<and> overrideFiles = None)"
    and "hasServiceWorker pf" and "swReady pf" and "swController pf"
  shows "\<exists>s7. loadOfflineModel pf overrideFiles s
               = run_pipeline pf (case overrideFiles of Some f \<Rightarrow> f | None \<Rightarrow> customModelFiles s)
                   ''custom-model'' s7
          \<and> pipeline_calls s7 = pipeline_calls s
          \<and> (\<forall>n. includes_js n ''transformers'' \<longrightarrow>
                 map_of (caches s7) n = map_option purge_cache (map_of (caches s) n))"
proof -
  have ne: "n \<noteq> ''custom-model-cache-v1''" if "includes_js n ''transformers''" for n
  proof
    assume "n = ''custom-model-cache-v1''"
    with that have "includes_js ''custom-model-cache-v1'' ''transformers''" by simp
    then show False by (simp add: includes_js_def sublist_code)
  qed
  show ?thesis
    using assms ne
    by (auto simp: loadOfflineModel_def Let_def caches_store_def update_conv'
          map_of_purge_transformers)
qed


text \<open>
  The loader then writes the map to the shared cache as the upload does, with an explicit
  content type: every key of the map gets its entry, and every other URL of the shared
  cache stays as it was (the purge does not reach that cache).
\<close>

lemma shared_cache_not_purged:
  "caches_open (purge_transformers st) ''custom-model-cache-v1''
     = caches_open st ''custom-model-cache-v1''"
proof -
  have "\<not> includes_js ''custom-model-cache-v1'' ''transformers''"
    by (simp add: includes_js_def sublist_code)
  then show ?thesis
    by (simp add: caches_open_def map_of_purge_transformers)
qed

lemma load_writes_shared_cache:
  assumes "modelSource s = Custom"
    and "\<not> isModelLoading s"
    and "\<not> (translatorRef s \<and> loadedModelId s = Some ''custom-model'' \<and> overrideFiles = None)"
    and "hasServiceWorker pf" and "swReady pf" and "swController pf"
    and fs: "filesToUse = (case overrideFiles of Some f \<Rightarrow> f | None \<Rightarrow> customModelFiles s)"
    and ok: "files_ok filesToUse"
  shows "\<exists>s7. loadOfflineModel pf overrideFiles s = run_pipeline pf filesToUse ''custom-model'' s7
     \<and> (\<forall>k b. map_of filesToUse k = Some b \<longrightarrow>
            cache_match (caches_open (caches s7) CACHE_NAME) (cache_url (location_origin pf) k)
              = Some (Response_with_type b))
     \<and> (\<forall>u. u \<notin> cache_url (location_origin pf) ` fst ` set filesToUse \<longrightarrow>
            cache_match (caches_open (caches s7) CACHE_NAME) u
              = cache_match (caches_open (caches s) CACHE_NAME) u)"
proof -
  let ?c = "cache_put_all Response_with_type (location_origin pf) filesToUse
              (caches_open (caches s) ''custom-model-cache-v1'')"
  have hit: "cache_match ?c (cache_url (location_origin pf) k) = Some (Response_with_type b)"
    if "map_of filesToUse k = Some b" for k b
    using ok that by (rule cache_match_put_all)
  have other: "cache_match ?c u = cache_match (caches_open (caches s) ''custom-model-cache-v1'') u"
    if "u \<notin> cache_url (location_origin pf) ` fst ` set filesToUse" for u
    using ok map_of_synced_other[OF that, of Response_with_type]
    by (simp add: cache_match_def files_ok_def map_of_cache_put_all)
  show ?thesis
    using assms(1-6) hit other
    by (auto simp: loadOfflineModel_def Let_def fs[symmetric] CACHE_NAME_def caches_open_store
          shared_cache_not_purged intro!: exI)
qed


section \<open>A worker that does not control the page\<close>





text \<open>
  The two other ways out before the check of the controller: a browser without service
  workers makes the function throw, and without an active registration the wait for
  \<open>navigator.serviceWorker.ready\<close> does not end.
\<close>

lemma load_without_service_worker:
  assumes "modelSource s = Custom"
    and "\<not> isModelLoading s"
    and "\<not> (translatorRef s \<and> loadedModelId s = Some ''custom-model'' \<and> overrideFiles = None)"
    and "\<not> hasServiceWorker pf"
  shows "\<exists>s'. loadOfflineModel pf overrideFiles s
               = Thrown ''Browser tidak mendukung Service Worker. Gunakan Chrome/Edge modern.'' s'
          \<and> pipeline_calls s' = pipeline_calls s"
  using assms by (simp add: loadOfflineModel_def Let_def)

lemma load_without_registration:
  assumes "modelSource s = Custom"
    and "\<not> isModelLoading s"
    and "\<not> (translatorRef s \<and> loadedModelId s = Some ''custom-model'' \<and> overrideFiles = None)"
    and "hasServiceWorker pf"
    and "\<not> swReady pf"
  shows "\<exists>s'. loadOfflineModel pf overrideFiles s = Pending s'
          \<and> pipeline_calls s' = pipeline_calls s"
  using assms by (simp add: loadOfflineModel_def Let_def)

end
